theory Spec2Isabelle
  imports Complex_Main "HOL-Library.Char_ord" "HOL-Library.List_Lexorder" "HOL-Library.Sublist"
begin

section \<open>The ephemeral cache\<close>

text \<open>
  \<^verbatim>\<open>interface CacheEntry<T> { data: T; timestamp: number }\<close>.
  The caches are \<^verbatim>\<open>Map<string, CacheEntry<any>>\<close>; \<^verbatim>\<open>Date.now()\<close> is passed in as
  the first argument (milliseconds since the epoch), and the mutated map is returned.
  The entry's \<^verbatim>\<open>timestamp\<close> is the field \<open>entry_timestamp\<close>, since play records have a
  \<open>timestamp\<close> of their own.
\<close>

record 'a CacheEntry =
  data :: 'a
  entry_timestamp :: int

type_synonym 'a cache = "string \<rightharpoonup> 'a CacheEntry"

definition CACHE_TTL :: int where
  "CACHE_TTL = 30000"

definition AGGREGATE_CACHE_TTL :: int where
  "AGGREGATE_CACHE_TTL = 60000"

text \<open>\<^verbatim>\<open>getCached\<close> returns \<open>None\<close> for \<^verbatim>\<open>null\<close>, together with the map as it leaves it.\<close>

definition getCached :: "int \<Rightarrow> 'a cache \<Rightarrow> string \<Rightarrow> int \<Rightarrow> 'a option \<times> 'a cache" where
  "getCached now cache key ttl =
     (case cache key of
        None \<Rightarrow> (None, cache)
      | Some entry \<Rightarrow>
          (let age = now - entry_timestamp entry
           in if age > ttl then (None, cache(key := None))
              else (Some (data entry), cache)))"

definition setCached :: "int \<Rightarrow> 'a cache \<Rightarrow> string \<Rightarrow> 'a \<Rightarrow> 'a cache" where
  "setCached now cache key d = cache(key \<mapsto> \<lparr>data = d, entry_timestamp = now\<rparr>)"

section \<open>Play records\<close>

text \<open>
  A play record is a document of the table \<^verbatim>\<open>attentv-ad-plays-prod\<close>; the server types it
  \<^verbatim>\<open>any\<close> and reads four attributes. Of the other three attributes, one that is absent
  is \<open>None\<close>.
  \<^item> \<open>timestamp\<close>: an ISO-8601 string in the table. The model identifies the string with
    the instant \<^verbatim>\<open>new Date(item.timestamp).getTime()\<close> it denotes, in milliseconds since
    the epoch (\<open>Instant\<close>). \<open>NoTimestamp\<close> is a missing or empty attribute and
    \<open>NullTimestamp\<close> is \<^verbatim>\<open>null\<close>: for both \<^verbatim>\<open>!item.timestamp\<close> holds and
    \<^verbatim>\<open>item.timestamp || 0\<close> is 0, but \<^verbatim>\<open>new Date(undefined)\<close> and \<^verbatim>\<open>new Date('')\<close> are
    invalid dates while \<^verbatim>\<open>new Date(null)\<close> is the epoch. Strings that do not parse as a
    date are outside the model.
  \<^item> \<open>play_duration\<close>: a number of seconds; JavaScript numbers are modelled as exact reals,
    so sums and quotients are the exact ones. \<open>None\<close> stands for the values that
    \<^verbatim>\<open>item.play_duration || 0\<close> replaces by 0 without being 0.
  \<^item> \<open>ad_filename\<close> and \<open>play_id\<close>: strings.
\<close>

datatype tstamp = NoTimestamp | NullTimestamp | Instant int

record item =
  play_id :: "string option"
  ad_filename :: "string option"
  timestamp :: tstamp
  play_duration :: "real option"

text \<open>\<^verbatim>\<open>item.play_duration || 0\<close>\<close>

definition duration_or_0 :: "item \<Rightarrow> real" where
  "duration_or_0 it = (case play_duration it of None \<Rightarrow> 0 | Some d \<Rightarrow> d)"

text \<open>\<^verbatim>\<open>new Date(a.timestamp || 0).getTime()\<close>\<close>

definition getTime_or_0 :: "item \<Rightarrow> int" where
  "getTime_or_0 it = (case timestamp it of Instant t \<Rightarrow> t | _ \<Rightarrow> 0)"

text \<open>
  A \<^verbatim>\<open>Set<string>\<close> is the list of its members in insertion order; \<^verbatim>\<open>size\<close> is the length.
\<close>

definition Set_add :: "string list \<Rightarrow> string \<Rightarrow> string list" where
  "Set_add s x = (if x \<in> set s then s else s @ [x])"

text \<open>
  A \<^verbatim>\<open>Map<K, V>\<close> is the list of its entries in insertion order; \<^verbatim>\<open>set\<close> on a key already
  there replaces the value in place.
\<close>

fun Map_get :: "('k \<times> 'v) list \<Rightarrow> 'k \<Rightarrow> 'v option" where
  "Map_get [] k = None"
| "Map_get ((k', v) # m) k = (if k' = k then Some v else Map_get m k)"

fun Map_set :: "('k \<times> 'v) list \<Rightarrow> 'k \<Rightarrow> 'v \<Rightarrow> ('k \<times> 'v) list" where
  "Map_set [] k v = [(k, v)]"
| "Map_set ((k', v') # m) k v = (if k' = k then (k, v) # m else (k', v') # Map_set m k v)"

text \<open>
  \<^verbatim>\<open>Array.prototype.sort(compareFn)\<close>. The sort is stable, and for a comparator that
  is a consistent ordering its result is the one stable sorted arrangement, which this
  insertion sort computes: an element goes before the first later element that does not
  have to precede it.
\<close>

fun insert_by :: "('a \<Rightarrow> 'a \<Rightarrow> real) \<Rightarrow> 'a \<Rightarrow> 'a list \<Rightarrow> 'a list" where
  "insert_by cmp x [] = [x]"
| "insert_by cmp x (y # ys) = (if cmp x y \<le> 0 then x # y # ys else y # insert_by cmp x ys)"

definition Array_sort :: "('a \<Rightarrow> 'a \<Rightarrow> real) \<Rightarrow> 'a list \<Rightarrow> 'a list" where
  "Array_sort cmp xs = foldr (insert_by cmp) xs []"

section \<open>The aggregator\<close>

subsection \<open>Week over week\<close>

record bucket =
  plays :: int
  duration :: real

record weekStats = bucket +
  uniqueAds :: int

record weekComparisonResponse =
  currentWeek :: weekStats
  previousWeek :: weekStats
  change :: weekStats

text \<open>
  \<open>now\<close> is \<^verbatim>\<open>new Date().getTime()\<close>. The two filters of the handler, then
  \<^verbatim>\<open>getWeekStats\<close>, whose \<^verbatim>\<open>forEach\<close> carries the set of ad names and the running
  duration.
\<close>

definition oneWeekAgo :: "int \<Rightarrow> int" where
  "oneWeekAgo now = now - 7 * 24 * 60 * 60 * 1000"

definition twoWeeksAgo :: "int \<Rightarrow> int" where
  "twoWeeksAgo now = now - 14 * 24 * 60 * 60 * 1000"

definition currentWeekItems :: "int \<Rightarrow> item list \<Rightarrow> item list" where
  "currentWeekItems now allItems =
     filter (\<lambda>it. case timestamp it of Instant date \<Rightarrow> date \<ge> oneWeekAgo now
                  | _ \<Rightarrow> False) allItems"

definition previousWeekItems :: "int \<Rightarrow> item list \<Rightarrow> item list" where
  "previousWeekItems now allItems =
     filter (\<lambda>it. case timestamp it of
                    Instant date \<Rightarrow> date \<ge> twoWeeksAgo now \<and> date < oneWeekAgo now
                  | _ \<Rightarrow> False) allItems"

definition weekStats_step :: "string list \<times> real \<Rightarrow> item \<Rightarrow> string list \<times> real" where
  "weekStats_step acc it =
     ((case ad_filename it of
         None \<Rightarrow> fst acc
       | Some a \<Rightarrow> if a \<noteq> [] then Set_add (fst acc) a else fst acc),
      (case play_duration it of
         None \<Rightarrow> snd acc
       | Some d \<Rightarrow> if d \<noteq> 0 then snd acc + d else snd acc))"

definition getWeekStats :: "item list \<Rightarrow> weekStats" where
  "getWeekStats items =
     (let acc = foldl weekStats_step ([], 0) items
      in \<lparr>plays = int (length items), duration = snd acc, uniqueAds = int (length (fst acc))\<rparr>)"

definition weekComparison :: "int \<Rightarrow> item list \<Rightarrow> weekComparisonResponse" where
  "weekComparison now allItems =
     (let cw = getWeekStats (currentWeekItems now allItems);
          pw = getWeekStats (previousWeekItems now allItems)
      in \<lparr>currentWeek = cw, previousWeek = pw,
          change = \<lparr>plays = plays cw - plays pw,
                    duration = duration cw - duration pw,
                    uniqueAds = uniqueAds cw - uniqueAds pw\<rparr>\<rparr>)"

subsection \<open>Hourly patterns\<close>

text \<open>
  \<^verbatim>\<open>getUTCHours\<close> and \<^verbatim>\<open>getUTCDay\<close> of an instant (1 January 1970 was a Thursday, day 4);
  \<open>div\<close> and \<open>mod\<close> on \<open>int\<close> round down, as the language's time arithmetic does.
\<close>

definition getUTCHours :: "int \<Rightarrow> nat" where
  "getUTCHours ms = nat ((ms div 3600000) mod 24)"

definition getUTCDay :: "int \<Rightarrow> nat" where
  "getUTCDay ms = nat ((ms div 86400000 + 4) mod 7)"

text \<open>
  The keys of \<^verbatim>\<open>hourMap\<close> are template strings: a number printed in decimal, split again
  at \<^verbatim>\<open>-\<close> and read back with \<^verbatim>\<open>Number\<close>. \<open>Number\<close> reads the strings of decimal digits
  (the empty string as 0); \<open>None\<close> is \<^verbatim>\<open>NaN\<close>, which is what every other string the
  handler could split off would give.
\<close>

definition digit_char :: "nat \<Rightarrow> char" where
  "digit_char d = ''0123456789'' ! d"

fun toString :: "nat \<Rightarrow> string" where
  "toString n = (if n < 10 then [digit_char n] else toString (n div 10) @ [digit_char (n mod 10)])"

declare toString.simps [simp del]

definition digit_val :: "char \<Rightarrow> nat" where
  "digit_val c = length (takeWhile (\<lambda>d. d \<noteq> c) ''0123456789'')"

definition Number :: "string \<Rightarrow> nat option" where
  "Number s = (if list_all (\<lambda>c. c \<in> set ''0123456789'') s
               then Some (foldl (\<lambda>acc c. 10 * acc + digit_val c) 0 s) else None)"

fun split_on :: "char \<Rightarrow> string \<Rightarrow> string list" where
  "split_on sep [] = [[]]"
| "split_on sep (c # cs) =
     (if c = sep then [] # split_on sep cs
      else (case split_on sep cs of [] \<Rightarrow> [[c]] | p # ps \<Rightarrow> (c # p) # ps))"

record hourPattern = bucket +
  hour :: "nat option"
  dayOfWeek :: "nat option option"

definition hourKey :: "bool \<Rightarrow> int \<Rightarrow> string" where
  "hourKey includeDayOfWeek date =
     (if includeDayOfWeek then toString (getUTCHours date) @ ''-'' @ toString (getUTCDay date)
      else toString (getUTCHours date))"

definition hourMap_step :: "bool \<Rightarrow> (string \<times> bucket) list \<Rightarrow> item \<Rightarrow> (string \<times> bucket) list" where
  "hourMap_step includeDayOfWeek hourMap it =
     (case timestamp it of
        Instant date \<Rightarrow>
          (let key = hourKey includeDayOfWeek date;
               existing = (case Map_get hourMap key of
                             Some e \<Rightarrow> e | None \<Rightarrow> \<lparr>plays = 0, duration = 0\<rparr>)
           in Map_set hourMap key
                \<lparr>plays = plays existing + 1,
                 duration = duration existing + duration_or_0 it\<rparr>)
      | _ \<Rightarrow> hourMap)"

text \<open>
  \<^verbatim>\<open>const [hour, dayOfWeek] = key.split('-').map(Number)\<close>: a missing second part is
  \<^verbatim>\<open>undefined\<close>, the outer \<open>None\<close> of \<open>dayOfWeek\<close>.
\<close>

definition hourPattern_of :: "bool \<Rightarrow> string \<times> bucket \<Rightarrow> hourPattern" where
  "hourPattern_of includeDayOfWeek entry =
     (let parts = map Number (split_on CHR ''-'' (fst entry));
          h = (case parts of [] \<Rightarrow> None | x # _ \<Rightarrow> x);
          d = (case parts of x # y # _ \<Rightarrow> Some y | _ \<Rightarrow> None)
      in \<lparr>plays = plays (snd entry), duration = duration (snd entry),
          hour = h,
          dayOfWeek = (if includeDayOfWeek \<and> d \<noteq> None then d else None)\<rparr>)"

definition hourlyPatterns :: "bool \<Rightarrow> item list \<Rightarrow> hourPattern list" where
  "hourlyPatterns includeDayOfWeek allItems =
     map (hourPattern_of includeDayOfWeek) (foldl (hourMap_step includeDayOfWeek) [] allItems)"

text \<open>
  For stating what the buckets hold: the records of a list that fall in a given UTC hour
  of the day. The handler does not compute this list.
\<close>

definition itemsAtHour :: "nat \<Rightarrow> item list \<Rightarrow> item list" where
  "itemsAtHour h allItems =
     filter (\<lambda>it. case timestamp it of Instant date \<Rightarrow> getUTCHours date = h | _ \<Rightarrow> False)
       allItems"

subsection \<open>Per-ad statistics of one device\<close>

record adStat =
  adFilename :: string
  totalPlays :: int
  totalDuration :: real
  averageDuration :: real
  lastPlayed :: "int option"
  error :: "string option"

text \<open>
  \<^verbatim>\<open>lastPlayed\<close>: the items sorted by time, latest first, and the timestamp of the first
  one, \<^verbatim>\<open>null\<close> when it has none.
\<close>

definition lastPlayedOf :: "item list \<Rightarrow> int option" where
  "lastPlayedOf items =
     (if length items > 0
      then (case Array_sort (\<lambda>a b. real_of_int (getTime_or_0 b - getTime_or_0 a)) items of
              [] \<Rightarrow> None
            | s # _ \<Rightarrow> (case timestamp s of Instant t \<Rightarrow> Some t | _ \<Rightarrow> None))
      else None)"

definition sumDuration :: "item list \<Rightarrow> real" where
  "sumDuration items = foldl (\<lambda>sum it. sum + duration_or_0 it) 0 items"

definition adStatsOf :: "string \<Rightarrow> item list \<Rightarrow> adStat" where
  "adStatsOf ad items =
     (let plays_n = int (length items);
          total = sumDuration items
      in \<lparr>adFilename = ad, totalPlays = plays_n, totalDuration = total,
          averageDuration = (if plays_n > 0 then total / real_of_int plays_n else 0),
          lastPlayed = lastPlayedOf items, error = None\<rparr>)"

section \<open>Errors and responses\<close>

text \<open>
  What the client libraries reject with: an \<^verbatim>\<open>Error\<close> object, of which the handlers
  read \<^verbatim>\<open>message\<close> and \<^verbatim>\<open>name\<close>. A rejected \<^verbatim>\<open>await\<close> is the \<open>Inl\<close> of a sum.
\<close>

datatype error = Error (message: string) (name: string)

text \<open>
  A response is the status with the JSON body, \<open>Inl\<close> for the error body
  \<^verbatim>\<open>{error, code}\<close>. \<^verbatim>\<open>res.json(x)\<close> answers with status 200.
\<close>

record errorBody =
  body_error :: string
  body_code :: "string option"

type_synonym 'a response = "nat \<times> (errorBody + 'a)"

definition res_json :: "'a \<Rightarrow> 'a response" where
  "res_json x = (200, Inr x)"

text \<open>
  The \<^verbatim>\<open>catch\<close> of every route:
  \<^verbatim>\<open>res.status(500).json({error: error.message || fallback, code: error.name})\<close>.
\<close>

definition res_error_500 :: "string \<Rightarrow> error \<Rightarrow> 'a response" where
  "res_error_500 fallback e =
     (500, Inl \<lparr>body_error = (if message e \<noteq> [] then message e else fallback),
                body_code = Some (name e)\<rparr>)"

section \<open>The object store and the listing routes\<close>

text \<open>
  \<^verbatim>\<open>ListObjectsV2Command\<close>: of each common prefix the handlers read \<^verbatim>\<open>Prefix\<close> and of
  each object \<^verbatim>\<open>Key\<close>, both optional, so a listing is a list of optional strings.
\<close>

record ListObjectsV2Input =
  Bucket :: string
  Delimiter :: "string option"
  Prefix :: "string option"

record ListObjectsV2Output =
  CommonPrefixes :: "string option list option"
  Contents :: "string option list option"

type_synonym s3Client = "ListObjectsV2Input \<Rightarrow> error + ListObjectsV2Output"

definition S3_BUCKET :: string where
  "S3_BUCKET = ''attntv''"

text \<open>
  \<^verbatim>\<open>String.prototype.replace\<close> with a string pattern replaces the first occurrence. The
  handlers only replace by the empty string, so the \<^verbatim>\<open>$\<close> patterns of a replacement
  play no part.
\<close>

fun replace :: "string \<Rightarrow> string \<Rightarrow> string \<Rightarrow> string" where
  "replace pat rep [] = (if pat = [] then rep else [])"
| "replace pat rep (c # cs) =
     (if prefix pat (c # cs) then rep @ drop (length pat) (c # cs)
      else c # replace pat rep cs)"

definition endsWith :: "string \<Rightarrow> string \<Rightarrow> bool" where
  "endsWith s suf = suffix suf s"

text \<open>
  \<^verbatim>\<open>.sort()\<close> without a comparator orders strings by their code units, a prefix before
  its extensions: the lexicographic order of \<open>char list\<close>, whose characters are ordered by
  their codes. Names are taken to be made of the characters a HOL string has. After the
  filter no element is \<^verbatim>\<open>undefined\<close>.
\<close>

definition Array_sort_default :: "string list \<Rightarrow> string list" where
  "Array_sort_default xs = sort xs"

text \<open>
  \<^verbatim>\<open>.map(f).filter(p)\<close> where \<open>f\<close> may give \<^verbatim>\<open>undefined\<close> and \<open>p\<close> starts with \<^verbatim>\<open>!!x\<close>:
  the undefined and the empty strings are dropped.
\<close>

definition deviceNames :: "ListObjectsV2Output \<Rightarrow> string list" where
  "deviceNames response =
     Array_sort_default
       (filter (\<lambda>device. device \<noteq> [] \<and> device \<noteq> ''ad_metrics'')
         (List.map_filter (map_option (replace ''/'' ''''))
           (case CommonPrefixes response of None \<Rightarrow> [] | Some ps \<Rightarrow> ps)))"

definition adNames_unsorted :: "string \<Rightarrow> ListObjectsV2Output \<Rightarrow> string list" where
  "adNames_unsorted prefix_str response =
     filter (\<lambda>ad. ad \<noteq> [] \<and> endsWith ad ''.mp4'')
       (List.map_filter (map_option (replace prefix_str ''''))
         (case Contents response of None \<Rightarrow> [] | Some os \<Rightarrow> os))"

definition adNames :: "string \<Rightarrow> ListObjectsV2Output \<Rightarrow> string list" where
  "adNames prefix_str response = Array_sort_default (adNames_unsorted prefix_str response)"

record devicesResponse =
  devices :: "string list"

record 'a withAds =
  ads :: "'a list"

record 'a deviceAdsResponse = "'a withAds" +
  deviceId :: string

text \<open>\<^verbatim>\<open>GET /api/devices\<close>\<close>

definition getDevices :: "s3Client \<Rightarrow> devicesResponse response" where
  "getDevices s3 =
     (case s3 \<lparr>Bucket = S3_BUCKET, Delimiter = Some ''/'', Prefix = None\<rparr> of
        Inl e \<Rightarrow> res_error_500 ''Failed to list devices'' e
      | Inr response \<Rightarrow> res_json \<lparr>devices = deviceNames response\<rparr>)"

text \<open>\<^verbatim>\<open>GET /api/devices/:deviceId/ads\<close>\<close>

definition getDeviceAds :: "s3Client \<Rightarrow> string \<Rightarrow> string deviceAdsResponse response" where
  "getDeviceAds s3 dev =
     (let prefix_str = dev @ ''/''
      in case s3 \<lparr>Bucket = S3_BUCKET, Delimiter = None, Prefix = Some prefix_str\<rparr> of
           Inl e \<Rightarrow> res_error_500 ''Failed to list ads'' e
         | Inr response \<Rightarrow> res_json \<lparr>ads = adNames prefix_str response, deviceId = dev\<rparr>)"

text \<open>\<^verbatim>\<open>getAllDevices\<close>: the same listing, with every error turned into the empty list.\<close>

definition getAllDevices :: "s3Client \<Rightarrow> string list" where
  "getAllDevices s3 =
     (case s3 \<lparr>Bucket = S3_BUCKET, Delimiter = Some ''/'', Prefix = None\<rparr> of
        Inl e \<Rightarrow> []
      | Inr response \<Rightarrow> deviceNames response)"

section \<open>The key-value store\<close>

text \<open>
  The parameters of a \<^verbatim>\<open>QueryCommand\<close> as the server builds them; the two
  \<^verbatim>\<open>ExpressionAttribute\<close> objects are lists of properties in assignment order. \<open>'k\<close> is
  the type of continuation tokens (\<^verbatim>\<open>LastEvaluatedKey\<close>, an object when present, hence
  truthy), \<open>'v\<close> the type of attribute values. A \<^verbatim>\<open>ScanCommand\<close> has a table and a limit.
\<close>

record ('k, 'v) QueryCommandInput =
  TableName :: string
  IndexName :: "string option"
  KeyConditionExpression :: string
  FilterExpression :: "string option"
  ExpressionAttributeNames :: "(string \<times> string) list"
  ExpressionAttributeValues :: "(string \<times> 'v) list"
  Limit :: "int option"
  ExclusiveStartKey :: "'k option"

datatype ('k, 'v) command =
  QueryCommand "('k, 'v) QueryCommandInput"
| ScanCommand string int

record ('i, 'k) CommandOutput =
  Items :: "'i list option"
  Count :: "int option"
  ScannedCount :: "int option"
  LastEvaluatedKey :: "'k option"

text \<open>
  \<^verbatim>\<open>docClient.send\<close>. For the routes the store is a function of the command: what a
  query answers does not depend on the other queries in flight.
\<close>

type_synonym ('i, 'k, 'v) docClient = "('k, 'v) command \<Rightarrow> error + ('i, 'k) CommandOutput"

subsection \<open>The generic query route\<close>

text \<open>
  The body of \<^verbatim>\<open>POST /api/stats\<close> after destructuring; \<open>None\<close> is \<^verbatim>\<open>undefined\<close>. Names
  are strings, and a name is falsy when it is missing or empty.
\<close>

record 'v statsBody =
  tableName :: "string option"
  limit :: "int option"
  partitionKey :: "string option"
  partitionValue :: "'v option"
  sortKey :: "string option"
  sortValue :: "'v option"
  sortValueStart :: "'v option"
  sortValueEnd :: "'v option"
  indexName :: "string option"

definition truthy :: "string option \<Rightarrow> bool" where
  "truthy s = (case s of None \<Rightarrow> False | Some x \<Rightarrow> x \<noteq> [])"

record 'i statsResponse =
  items :: "'i list"
  count :: int
  scannedCount :: int

text \<open>\<^verbatim>\<open>conditions.join(' AND ')\<close>\<close>

fun join_AND :: "string list \<Rightarrow> string" where
  "join_AND [] = []"
| "join_AND [c] = c"
| "join_AND (c # cs) = c @ '' AND '' @ join_AND cs"

text \<open>The sort-key branch: the values and the condition it adds, if any.\<close>

definition sortCondition :: "'v statsBody \<Rightarrow> (string \<times> 'v) list \<times> string list" where
  "sortCondition b =
     (case (sortValueStart b, sortValueEnd b, sortValue b) of
        (Some s, Some e, _) \<Rightarrow>
          ([('':sk_start'', s), ('':sk_end'', e)], [''#sk BETWEEN :sk_start AND :sk_end''])
      | (_, _, Some v) \<Rightarrow> ([('':sk'', v)], [''#sk = :sk''])
      | (Some s, None, None) \<Rightarrow> ([('':sk_start'', s)], [''#sk >= :sk_start''])
      | (None, Some e, None) \<Rightarrow> ([('':sk_end'', e)], [''#sk <= :sk_end''])
      | (None, None, None) \<Rightarrow> ([], []))"

definition statsCommand :: "'v statsBody \<Rightarrow> string \<Rightarrow> ('k, 'v) command" where
  "statsCommand b table =
     (let lim = (case limit b of None \<Rightarrow> 100 | Some l \<Rightarrow> l)
      in case (partitionKey b, partitionValue b) of
           (Some pk, Some pv) \<Rightarrow>
             (if pk \<noteq> [] then
                (let sk = (if truthy (sortKey b) then sortCondition b else ([], []))
                 in QueryCommand
                      \<lparr>TableName = table,
                       IndexName = (if truthy (indexName b) then indexName b else None),
                       KeyConditionExpression = join_AND (''#pk = :pk'' # snd sk),
                       FilterExpression = None,
                       ExpressionAttributeNames =
                         (''#pk'', pk) #
                         (case sortKey b of
                            None \<Rightarrow> []
                          | Some k \<Rightarrow> if k \<noteq> [] then [(''#sk'', k)] else []),
                       ExpressionAttributeValues = ('':pk'', pv) # fst sk,
                       Limit = Some lim,
                       ExclusiveStartKey = None\<rparr>)
              else ScanCommand table lim)
         | _ \<Rightarrow> ScanCommand table lim)"

text \<open>
  The route answers with a response; the second component is the list of commands it
  sent to the store.
\<close>

definition postStats ::
  "('i, 'k, 'v) docClient \<Rightarrow> 'v statsBody \<Rightarrow> 'i statsResponse response \<times> ('k, 'v) command list" where
  "postStats send b =
     (case tableName b of
        None \<Rightarrow> ((400, Inl \<lparr>body_error = ''Table name is required'', body_code = None\<rparr>), [])
      | Some table \<Rightarrow>
          if table = [] then
            ((400, Inl \<lparr>body_error = ''Table name is required'', body_code = None\<rparr>), [])
          else
            (let cmd = statsCommand b table
             in case send cmd of
                  Inl e \<Rightarrow> (res_error_500 ''Failed to fetch statistics'' e, [cmd])
                | Inr response \<Rightarrow>
                    (res_json
                       \<lparr>items = (case Items response of None \<Rightarrow> [] | Some xs \<Rightarrow> xs),
                        count = (case Count response of None \<Rightarrow> 0 | Some c \<Rightarrow> c),
                        scannedCount = (case ScannedCount response of None \<Rightarrow> 0 | Some c \<Rightarrow> c)\<rparr>,
                     [cmd])))"

section \<open>The pagination walker\<close>

text \<open>
  The query of \<^verbatim>\<open>getAllItemsForDevice\<close>: \<^verbatim>\<open>ExclusiveStartKey\<close> is set only once a page
  has returned a token.
\<close>

definition deviceQuery :: "string \<Rightarrow> 'k option \<Rightarrow> ('k, string) QueryCommandInput" where
  "deviceQuery dev lastKey =
     \<lparr>TableName = ''attentv-ad-plays-prod'',
      IndexName = Some ''device-index'',
      KeyConditionExpression = ''#device = :device'',
      FilterExpression = None,
      ExpressionAttributeNames = [(''#device'', ''device_id'')],
      ExpressionAttributeValues = [('':device'', dev)],
      Limit = None,
      ExclusiveStartKey = lastKey\<rparr>"

text \<open>
  For the walker on its own the store may answer by any rule at all: it is a state
  machine, whose answer to a command may depend on everything it was sent before.
\<close>

type_synonym ('s, 'i, 'k, 'v) store =
  "'s \<Rightarrow> ('k, 'v) command \<Rightarrow> (error + ('i, 'k) CommandOutput) \<times> 's"

text \<open>
  The \<^verbatim>\<open>while (hasMore)\<close> loop, which has no bound: \<open>None\<close> is the loop that never
  ends. The state of the loop is \<^verbatim>\<open>items\<close> and \<^verbatim>\<open>lastEvaluatedKey\<close>; the model adds the
  list of the commands sent so far and the state of the store. A rejected \<^verbatim>\<open>send\<close>
  leaves the function with its error.
\<close>

partial_function (option) getAllItems_loop ::
  "('s, 'i, 'k, string) store \<Rightarrow> string \<Rightarrow> 's \<Rightarrow> 'i list \<Rightarrow> 'k option \<Rightarrow> ('k, string) command list
     \<Rightarrow> ((error + 'i list) \<times> ('k, string) command list \<times> 's) option" where
  "getAllItems_loop send dev s acc lastKey sent =
     (let query = QueryCommand (deviceQuery dev lastKey)
      in case send s query of
           (Inl e, s') \<Rightarrow> Some (Inl e, sent @ [query], s')
         | (Inr response, s') \<Rightarrow>
             (let acc' = (case Items response of None \<Rightarrow> acc | Some xs \<Rightarrow> acc @ xs)
              in case LastEvaluatedKey response of
                   None \<Rightarrow> Some (Inr acc', sent @ [query], s')
                 | Some k \<Rightarrow> getAllItems_loop send dev s' acc' (Some k) (sent @ [query])))"

definition getAllItemsForDevice ::
  "('s, 'i, 'k, string) store \<Rightarrow> 's \<Rightarrow> string
     \<Rightarrow> ((error + 'i list) \<times> ('k, string) command list \<times> 's) option" where
  "getAllItemsForDevice send s dev = getAllItems_loop send dev s [] None []"

text \<open>
  For stating what the walker does: a store in state \<open>s\<close> serves the pages \<open>ps\<close> to a
  device's query starting at the token \<open>tok\<close> when it answers the query on the device index
  for that device, with \<open>tok\<close> as its \<^verbatim>\<open>ExclusiveStartKey\<close>, with the first page, and either
  this page has no token and is the last, or it has one and the store, in its new state,
  serves the remaining pages from that token. The query is written out here, so that the
  condition on the store does not depend on what the walker builds.
\<close>

fun servesPages ::
  "('s, 'i, 'k, string) store \<Rightarrow> string \<Rightarrow> 's \<Rightarrow> 'k option \<Rightarrow> ('i, 'k) CommandOutput list \<Rightarrow> bool" where
  "servesPages send dev s tok [] = False"
| "servesPages send dev s tok (p # ps) =
     (case send s (QueryCommand
             \<lparr>TableName = ''attentv-ad-plays-prod'',
              IndexName = Some ''device-index'',
              KeyConditionExpression = ''#device = :device'',
              FilterExpression = None,
              ExpressionAttributeNames = [(''#device'', ''device_id'')],
              ExpressionAttributeValues = [('':device'', dev)],
              Limit = None,
              ExclusiveStartKey = tok\<rparr>) of
        (Inl e, s') \<Rightarrow> False
      | (Inr response, s') \<Rightarrow>
          response = p \<and>
          (case LastEvaluatedKey p of
             None \<Rightarrow> ps = []
           | Some k \<Rightarrow> ps \<noteq> [] \<and> servesPages send dev s' (Some k) ps))"

text \<open>\<^verbatim>\<open>response.Items\<close> of a page, the empty list when the page has none.\<close>

definition pageItems :: "('i, 'k) CommandOutput \<Rightarrow> 'i list" where
  "pageItems p = (case Items p of None \<Rightarrow> [] | Some xs \<Rightarrow> xs)"

section \<open>The per-ad routes\<close>

text \<open>
  Both routes start one asynchronous sub-aggregation per ad and join them with
  \<^verbatim>\<open>Promise.all\<close>. A sub-aggregation queries the store page by page in a loop without
  a bound, as the walker does, here with a filter on the ad. The store of these routes
  is a \<open>docClient\<close>, a function of the command, so the order in which the
  sub-aggregations get their answers does not matter. A sub-aggregation whose loop never
  ends is \<open>None\<close>, and then so is the route: \<^verbatim>\<open>Promise.all\<close> never settles.

  Each route first looks into its cache unless asked to refresh, and stores the response
  it computes. The computation of a response is a function of its own here
  (\<open>getDeviceAdStats\<close>, \<open>getLeaderboard\<close>), and the route wraps it in the cache (\<open>withCache\<close>
  below).
\<close>

definition adQuery :: "string \<Rightarrow> string \<Rightarrow> 'k option \<Rightarrow> ('k, string) QueryCommandInput" where
  "adQuery dev ad lastKey =
     \<lparr>TableName = ''attentv-ad-plays-prod'',
      IndexName = Some ''device-index'',
      KeyConditionExpression = ''#device = :device'',
      FilterExpression = Some ''#ad = :ad'',
      ExpressionAttributeNames = [(''#device'', ''device_id''), (''#ad'', ''ad_filename'')],
      ExpressionAttributeValues = [('':device'', dev), ('':ad'', ad)],
      Limit = None,
      ExclusiveStartKey = lastKey\<rparr>"

subsection \<open>Per-ad statistics of a device\<close>

text \<open>The loop of \<^verbatim>\<open>GET /api/stats/device/:deviceId/ads\<close>, inside the \<^verbatim>\<open>try\<close>.\<close>

partial_function (option) deviceAd_loop ::
  "(item, 'k, string) docClient \<Rightarrow> string \<Rightarrow> string \<Rightarrow> item list \<Rightarrow> 'k option
     \<Rightarrow> (error + item list) option" where
  "deviceAd_loop send dev ad acc lastKey =
     (case send (QueryCommand (adQuery dev ad lastKey)) of
        Inl e \<Rightarrow> Some (Inl e)
      | Inr response \<Rightarrow>
          (let acc' = (case Items response of None \<Rightarrow> acc | Some xs \<Rightarrow> acc @ xs)
           in case LastEvaluatedKey response of
                None \<Rightarrow> Some (Inr acc')
              | Some k \<Rightarrow> deviceAd_loop send dev ad acc' (Some k)))"

text \<open>The \<^verbatim>\<open>catch\<close> of a sub-aggregation: zeroed statistics with the error's message.\<close>

definition failedAdStat :: "string \<Rightarrow> error \<Rightarrow> adStat" where
  "failedAdStat ad e =
     \<lparr>adFilename = ad, totalPlays = 0, totalDuration = 0, averageDuration = 0,
      lastPlayed = None, error = Some (message e)\<rparr>"

definition deviceAdStat :: "(item, 'k, string) docClient \<Rightarrow> string \<Rightarrow> string \<Rightarrow> adStat option" where
  "deviceAdStat send dev ad =
     (case deviceAd_loop send dev ad [] None of
        None \<Rightarrow> None
      | Some (Inl e) \<Rightarrow> Some (failedAdStat ad e)
      | Some (Inr its) \<Rightarrow> Some (adStatsOf ad its))"

text \<open>\<^verbatim>\<open>Promise.all\<close> over the sub-aggregations, none of which rejects.\<close>

fun Promise_all :: "'a option list \<Rightarrow> 'a list option" where
  "Promise_all [] = Some []"
| "Promise_all (p # ps) =
     (case p of
        None \<Rightarrow> None
      | Some x \<Rightarrow> (case Promise_all ps of None \<Rightarrow> None | Some xs \<Rightarrow> Some (x # xs)))"

definition getDeviceAdStats ::
  "s3Client \<Rightarrow> (item, 'k, string) docClient \<Rightarrow> string \<Rightarrow> adStat deviceAdsResponse response option" where
  "getDeviceAdStats s3 send dev =
     (let prefix_str = dev @ ''/''
      in case s3 \<lparr>Bucket = S3_BUCKET, Delimiter = None, Prefix = Some prefix_str\<rparr> of
           Inl e \<Rightarrow> Some (res_error_500 ''Failed to fetch ad aggregations'' e)
         | Inr s3Response \<Rightarrow>
             (case Promise_all (map (deviceAdStat send dev) (adNames prefix_str s3Response)) of
                None \<Rightarrow> None
              | Some adStats \<Rightarrow> Some (res_json \<lparr>ads = adStats, deviceId = dev\<rparr>)))"

subsection \<open>The leaderboard\<close>

record leaderboardEntry = adStat +
  frequency :: "real option"
  deviceCount :: int

text \<open>
  The set of all ads: each device's listing, filtered but not sorted, added to the set.
  A listing that fails is not caught here and ends the route with status 500.
\<close>

fun collectAds :: "s3Client \<Rightarrow> string list \<Rightarrow> string list \<Rightarrow> error + string list" where
  "collectAds s3 [] allAds = Inr allAds"
| "collectAds s3 (dev # devs) allAds =
     (case s3 \<lparr>Bucket = S3_BUCKET, Delimiter = None, Prefix = Some (dev @ ''/'')\<rparr> of
        Inl e \<Rightarrow> Inl e
      | Inr s3Response \<Rightarrow>
          collectAds s3 devs (foldl Set_add allAds (adNames_unsorted (dev @ ''/'') s3Response)))"

text \<open>
  The \<^verbatim>\<open>while\<close> loop for one device, inside the \<^verbatim>\<open>for\<close> over the devices. The state is
  the pair of \<^verbatim>\<open>items\<close> and \<^verbatim>\<open>deviceSet\<close>, shared by all devices of the ad:
  \<^verbatim>\<open>if (response.Items) { items.push(...response.Items); deviceSet.add(deviceId) }\<close>.
\<close>

partial_function (option) leaderboard_loop ::
  "(item, 'k, string) docClient \<Rightarrow> string \<Rightarrow> string \<Rightarrow> item list \<times> string list \<Rightarrow> 'k option
     \<Rightarrow> (error + item list \<times> string list) option" where
  "leaderboard_loop send ad dev acc lastKey =
     (case send (QueryCommand (adQuery dev ad lastKey)) of
        Inl e \<Rightarrow> Some (Inl e)
      | Inr response \<Rightarrow>
          (let acc' = (case Items response of
                         None \<Rightarrow> acc
                       | Some xs \<Rightarrow> (fst acc @ xs, Set_add (snd acc) dev))
           in case LastEvaluatedKey response of
                None \<Rightarrow> Some (Inr acc')
              | Some k \<Rightarrow> leaderboard_loop send ad dev acc' (Some k)))"

fun leaderboard_devices ::
  "(item, 'k, string) docClient \<Rightarrow> string \<Rightarrow> string list \<Rightarrow> item list \<times> string list
     \<Rightarrow> (error + item list \<times> string list) option" where
  "leaderboard_devices send ad [] acc = Some (Inr acc)"
| "leaderboard_devices send ad (dev # devs) acc =
     (case leaderboard_loop send ad dev acc None of
        None \<Rightarrow> None
      | Some (Inl e) \<Rightarrow> Some (Inl e)
      | Some (Inr acc') \<Rightarrow> leaderboard_devices send ad devs acc')"

text \<open>
  \<^verbatim>\<open>items.sort((a, b) => timeA - timeB)\<close> sorts \<^verbatim>\<open>items\<close> in place, earliest first.
\<close>

definition sortByTime :: "item list \<Rightarrow> item list" where
  "sortByTime its = Array_sort (\<lambda>a b. real_of_int (getTime_or_0 a - getTime_or_0 b)) its"

text \<open>
  \<^verbatim>\<open>new Date(x.timestamp).getTime()\<close>, without the \<^verbatim>\<open>|| 0\<close> of the comparators: a missing or
  empty timestamp gives an invalid date, whose time is \<^verbatim>\<open>NaN\<close> (\<open>None\<close>), and \<^verbatim>\<open>null\<close> gives
  the epoch.
\<close>

definition Date_getTime :: "tstamp \<Rightarrow> int option" where
  "Date_getTime ts =
     (case ts of NoTimestamp \<Rightarrow> None | NullTimestamp \<Rightarrow> Some 0 | Instant t \<Rightarrow> Some t)"

text \<open>
  Plays per day. When the first or the last play has an invalid date, \<^verbatim>\<open>daysDiff\<close> and the
  frequency are \<^verbatim>\<open>NaN\<close>: \<open>None\<close>. The argument is the sorted list, which is not empty.
\<close>

definition frequencyOf :: "item list \<Rightarrow> real option" where
  "frequencyOf sorted_its =
     (case sorted_its of
        [] \<Rightarrow> Some 0
      | firstItem # _ \<Rightarrow>
          (case (Date_getTime (timestamp firstItem),
                 Date_getTime (timestamp (last sorted_its))) of
             (Some firstPlay, Some lastPlay) \<Rightarrow>
               (let daysDiff = max 1 (real_of_int (lastPlay - firstPlay) / (1000 * 60 * 60 * 24))
                in Some (real (length sorted_its) / daysDiff))
           | _ \<Rightarrow> None))"

text \<open>\<^verbatim>\<open>Math.round(frequency * 100) / 100\<close>; \<^verbatim>\<open>Math.round\<close> rounds halves up.\<close>

definition round2 :: "real option \<Rightarrow> real option" where
  "round2 f = map_option (\<lambda>x. real_of_int \<lfloor>x * 100 + 1 / 2\<rfloor> / 100) f"

text \<open>
  The statistics of an ad from its items and its device set. The totals are taken before
  the in-place sort, \<^verbatim>\<open>lastPlayed\<close> after it.
\<close>

definition leaderboardEntryOf :: "string \<Rightarrow> item list \<times> string list \<Rightarrow> leaderboardEntry" where
  "leaderboardEntryOf ad acc =
     (let its = fst acc;
          plays_n = int (length its);
          total_d = sumDuration its;
          its' = (if length its > 0 then sortByTime its else its)
      in \<lparr>adFilename = ad, totalPlays = plays_n, totalDuration = total_d,
          averageDuration = (if plays_n > 0 then total_d / real_of_int plays_n else 0),
          lastPlayed = lastPlayedOf its',
          error = None,
          frequency = round2 (if length its > 0 then frequencyOf its' else Some 0),
          deviceCount = int (length (snd acc))\<rparr>)"

definition failedLeaderboardEntry :: "string \<Rightarrow> error \<Rightarrow> leaderboardEntry" where
  "failedLeaderboardEntry ad e =
     \<lparr>adFilename = ad, totalPlays = 0, totalDuration = 0, averageDuration = 0,
      lastPlayed = None, error = Some (message e), frequency = Some 0, deviceCount = 0\<rparr>"

definition leaderboardStat ::
  "(item, 'k, string) docClient \<Rightarrow> string list \<Rightarrow> string \<Rightarrow> leaderboardEntry option" where
  "leaderboardStat send devs ad =
     (case leaderboard_devices send ad devs ([], []) of
        None \<Rightarrow> None
      | Some (Inl e) \<Rightarrow> Some (failedLeaderboardEntry ad e)
      | Some (Inr acc) \<Rightarrow> Some (leaderboardEntryOf ad acc))"

text \<open>
  The comparator of the final sort. A difference with a \<^verbatim>\<open>NaN\<close> frequency is \<^verbatim>\<open>NaN\<close>,
  which the sort takes for 0.
\<close>

definition leaderboardCompare :: "string \<Rightarrow> leaderboardEntry \<Rightarrow> leaderboardEntry \<Rightarrow> real" where
  "leaderboardCompare sortBy a b =
     (if sortBy = ''duration'' then totalDuration b - totalDuration a
      else if sortBy = ''frequency'' then
        (case (frequency b, frequency a) of (Some fb, Some fa) \<Rightarrow> fb - fa | _ \<Rightarrow> 0)
      else real_of_int (totalPlays b - totalPlays a))"

text \<open>
  \<^verbatim>\<open>slice(0, end)\<close>: a negative \<open>end\<close> counts from the end of the array.
\<close>

definition Array_slice0 :: "int \<Rightarrow> 'a list \<Rightarrow> 'a list" where
  "Array_slice0 e xs =
     (if e < 0 then take (nat (int (length xs) + e)) xs else take (nat e) xs)"

record 'a leaderboardResponse = "'a withAds" +
  total :: int

definition leaderboardResponseOf ::
  "int \<Rightarrow> string \<Rightarrow> leaderboardEntry list \<Rightarrow> leaderboardEntry leaderboardResponse" where
  "leaderboardResponseOf lmt sortBy adStats =
     (let sorted_stats = Array_sort (leaderboardCompare sortBy) adStats
      in \<lparr>ads = Array_slice0 lmt sorted_stats, total = int (length sorted_stats)\<rparr>)"

text \<open>
  The query string: \<open>limitParam\<close> is \<^verbatim>\<open>parseInt(req.query.limit)\<close> with \<open>None\<close> for \<^verbatim>\<open>NaN\<close>,
  \<open>sortByParam\<close> is \<^verbatim>\<open>req.query.sortBy\<close>; \<^verbatim>\<open>|| 20\<close> and \<^verbatim>\<open>|| 'plays'\<close> replace the falsy
  values.
\<close>

definition limitOf :: "int option \<Rightarrow> int" where
  "limitOf limitParam = (case limitParam of None \<Rightarrow> 20 | Some n \<Rightarrow> if n = 0 then 20 else n)"

definition sortByOf :: "string option \<Rightarrow> string" where
  "sortByOf sortByParam =
     (case sortByParam of None \<Rightarrow> ''plays'' | Some s \<Rightarrow> if s = [] then ''plays'' else s)"

definition getLeaderboard ::
  "s3Client \<Rightarrow> (item, 'k, string) docClient \<Rightarrow> int option \<Rightarrow> string option
     \<Rightarrow> leaderboardEntry leaderboardResponse response option" where
  "getLeaderboard s3 send limitParam sortByParam =
     (let devs = getAllDevices s3
      in case collectAds s3 devs [] of
           Inl e \<Rightarrow> Some (res_error_500 ''Failed to fetch ads leaderboard'' e)
         | Inr allAds \<Rightarrow>
             (case Promise_all (map (leaderboardStat send devs) allAds) of
                None \<Rightarrow> None
              | Some adStats \<Rightarrow>
                  Some (res_json (leaderboardResponseOf (limitOf limitParam)
                                    (sortByOf sortByParam) adStats))))"

subsection \<open>The routes with their cache\<close>

text \<open>
  The frame every cached route has: unless \<^verbatim>\<open>refresh=true\<close>, a value found by \<open>getCached\<close>
  is the response; otherwise the response is computed, and stored by \<open>setCached\<close> when the
  computation did not end in the \<^verbatim>\<open>catch\<close>. The clock is read once by each of the two cache
  operations (\<open>t_get\<close>, \<open>t_set\<close>). A computation that never ends gives no response.
\<close>

definition withCache ::
  "int \<Rightarrow> int \<Rightarrow> 'a cache \<Rightarrow> bool \<Rightarrow> string \<Rightarrow> int \<Rightarrow> 'a response option
     \<Rightarrow> ('a response \<times> 'a cache) option" where
  "withCache t_get t_set cache forceRefresh cacheKey ttl fresh =
     (let looked = (if forceRefresh then (None, cache) else getCached t_get cache cacheKey ttl)
      in case fst looked of
           Some cached \<Rightarrow> Some (res_json cached, snd looked)
         | None \<Rightarrow>
             (case fresh of
                None \<Rightarrow> None
              | Some (st, Inl err) \<Rightarrow> Some ((st, Inl err), snd looked)
              | Some (st, Inr response) \<Rightarrow>
                  Some ((st, Inr response), setCached t_set (snd looked) cacheKey response)))"

text \<open>\<^verbatim>\<open>GET /api/stats/device/:deviceId/ads\<close>: \<^verbatim>\<open>deviceAdsCache\<close>, keyed by the device.\<close>

definition deviceAdStatsRoute ::
  "int \<Rightarrow> int \<Rightarrow> adStat deviceAdsResponse cache \<Rightarrow> s3Client \<Rightarrow> (item, 'k, string) docClient
     \<Rightarrow> string \<Rightarrow> bool
     \<Rightarrow> (adStat deviceAdsResponse response \<times> adStat deviceAdsResponse cache) option" where
  "deviceAdStatsRoute t_get t_set deviceAdsCache s3 send dev forceRefresh =
     withCache t_get t_set deviceAdsCache forceRefresh dev CACHE_TTL
       (getDeviceAdStats s3 send dev)"

text \<open>
  \<^verbatim>\<open>GET /api/stats/ads/leaderboard\<close>: \<^verbatim>\<open>aggregateCache\<close>, keyed by
  \<^verbatim>\<open>`ads-leaderboard-${limit}-${sortBy}`\<close>.
\<close>

definition Int_toString :: "int \<Rightarrow> string" where
  "Int_toString n = (if n < 0 then ''-'' @ toString (nat (- n)) else toString (nat n))"

definition leaderboardRoute ::
  "int \<Rightarrow> int \<Rightarrow> leaderboardEntry leaderboardResponse cache \<Rightarrow> s3Client
     \<Rightarrow> (item, 'k, string) docClient \<Rightarrow> int option \<Rightarrow> string option \<Rightarrow> bool
     \<Rightarrow> (leaderboardEntry leaderboardResponse response
          \<times> leaderboardEntry leaderboardResponse cache) option" where
  "leaderboardRoute t_get t_set aggregateCache s3 send limitParam sortByParam forceRefresh =
     withCache t_get t_set aggregateCache forceRefresh
       (''ads-leaderboard-'' @ Int_toString (limitOf limitParam) @ ''-'' @ sortByOf sortByParam)
       AGGREGATE_CACHE_TTL
       (getLeaderboard s3 send limitParam sortByParam)"

section \<open>Example stores\<close>

text \<open>
  Concrete clients on which the theorems below are instantiated. The bucket lists two
  devices besides the reserved prefix, and one device folder with two videos.
\<close>

definition s3_example :: s3Client where
  "s3_example inp =
     (if Prefix inp = None
      then Inr \<lparr>CommonPrefixes = Some [Some ''tv-b/'', Some ''ad_metrics/'', None, Some ''tv-a/''],
                Contents = None\<rparr>
      else if Prefix inp = Some ''tv-a/''
      then Inr \<lparr>CommonPrefixes = None,
                Contents = Some [Some ''tv-a/z.mp4'', Some ''tv-a/'', Some ''tv-a/notes.txt'',
                                 Some ''tv-a/b.mp4'']\<rparr>
      else Inr \<lparr>CommonPrefixes = None, Contents = Some [Some ''tv-b/b.mp4'']\<rparr>)"

text \<open>A store that rejects every command, and one that answers every command with nothing.\<close>

definition send_unavailable :: "(item, nat, string) docClient" where
  "send_unavailable cmd = Inl (Error ''Requested resource not found'' ''ResourceNotFoundException'')"

definition send_nothing :: "(item, nat, string) docClient" where
  "send_nothing cmd = Inr \<lparr>Items = Some [], Count = Some 0, ScannedCount = Some 0, LastEvaluatedKey = None\<rparr>"

text \<open>A body for \<^verbatim>\<open>POST /api/stats\<close>: a device's plays from a date on.\<close>

definition body_example :: "string statsBody" where
  "body_example = \<lparr>tableName = Some ''attentv-ad-plays-prod'', limit = None,
      partitionKey = Some ''device_id'', partitionValue = Some ''tv-a'',
      sortKey = Some ''timestamp'', sortValue = None, sortValueStart = Some ''2025-11-01'',
      sortValueEnd = None, indexName = Some ''device-index''\<rparr>"

text \<open>
  A stub store that hands out the pages it holds one after the other, whatever it is
  asked, and three pages of 2, 2 and 1 records with tokens on the first two.
\<close>

definition stub_send :: "(('i, 'k) CommandOutput list, 'i, 'k, string) store" where
  "stub_send ps cmd =
     (case ps of
        [] \<Rightarrow> (Inl (Error ''no more pages'' ''StubError''), [])
      | p # rest \<Rightarrow> (Inr p, rest))"

text \<open>
  A store without state that answers by the token it is given: the first page to a query
  without \<^verbatim>\<open>ExclusiveStartKey\<close>, the second to the token 2, the third to the token 4, and an
  error to anything else. \<open>tv_a_query\<close> is the query for the device \<open>tv-a\<close> from a token on.
\<close>

definition token_send :: "(unit, nat, nat, string) store" where
  "token_send u cmd =
     (case cmd of
        ScanCommand t l \<Rightarrow> (Inl (Error ''scan is not served'' ''StubError''), ())
      | QueryCommand q \<Rightarrow>
          (if ExclusiveStartKey q = None then
             (Inr \<lparr>Items = Some [1, 2], Count = Some 2, ScannedCount = Some 2,
                   LastEvaluatedKey = Some 2\<rparr>, ())
           else if ExclusiveStartKey q = Some 2 then
             (Inr \<lparr>Items = Some [3, 4], Count = Some 2, ScannedCount = Some 2,
                   LastEvaluatedKey = Some 4\<rparr>, ())
           else if ExclusiveStartKey q = Some 4 then
             (Inr \<lparr>Items = Some [5], Count = Some 1, ScannedCount = Some 1,
                   LastEvaluatedKey = None\<rparr>, ())
           else (Inl (Error ''unknown token'' ''ValidationException''), ())))"

definition tv_a_query :: "nat option \<Rightarrow> (nat, string) QueryCommandInput" where
  "tv_a_query tok =
     \<lparr>TableName = ''attentv-ad-plays-prod'',
      IndexName = Some ''device-index'',
      KeyConditionExpression = ''#device = :device'',
      FilterExpression = None,
      ExpressionAttributeNames = [(''#device'', ''device_id'')],
      ExpressionAttributeValues = [('':device'', ''tv-a'')],
      Limit = None,
      ExclusiveStartKey = tok\<rparr>"

definition three_pages :: "(nat, nat) CommandOutput list" where
  "three_pages =
     [\<lparr>Items = Some [1, 2], Count = Some 2, ScannedCount = Some 2, LastEvaluatedKey = Some 2\<rparr>,
      \<lparr>Items = Some [3, 4], Count = Some 2, ScannedCount = Some 2, LastEvaluatedKey = Some 4\<rparr>,
      \<lparr>Items = Some [5], Count = Some 1, ScannedCount = Some 1, LastEvaluatedKey = None\<rparr>]"

text \<open>
  A table of plays by device: \<open>tv-a\<close> played \<open>b.mp4\<close> on day 1 and on day 3, \<open>tv-b\<close> played
  nothing. \<open>send_table\<close> answers a query with the plays of the device that pass the filter,
  in one page; \<open>send_flaky\<close> does the same but rejects the queries about \<open>z.mp4\<close>.
\<close>

definition plays_example :: "(string \<times> item) list" where
  "plays_example =
     [(''tv-a'', \<lparr>play_id = Some ''p1'', ad_filename = Some ''b.mp4'',
                  timestamp = Instant 86400000, play_duration = Some 5\<rparr>),
      (''tv-a'', \<lparr>play_id = Some ''p2'', ad_filename = Some ''b.mp4'',
                  timestamp = Instant 259200000, play_duration = Some 7\<rparr>)]"

definition send_table :: "(item, nat, string) docClient" where
  "send_table cmd =
     (case cmd of
        ScanCommand t l \<Rightarrow> Inl (Error ''scan is not served'' ''StubError'')
      | QueryCommand q \<Rightarrow>
          Inr \<lparr>Items = Some (map snd (filter
                   (\<lambda>row. Map_get (ExpressionAttributeValues q) '':device'' = Some (fst row)
                      \<and> (FilterExpression q = None
                           \<or> Map_get (ExpressionAttributeValues q) '':ad'' = ad_filename (snd row)))
                   plays_example)),
               Count = None, ScannedCount = None, LastEvaluatedKey = None\<rparr>)"

definition send_flaky :: "(item, nat, string) docClient" where
  "send_flaky cmd =
     (case cmd of
        ScanCommand t l \<Rightarrow> Inl (Error ''scan is not served'' ''StubError'')
      | QueryCommand q \<Rightarrow>
          if Map_get (ExpressionAttributeValues q) '':ad'' = Some ''z.mp4''
          then Inl (Error ''Rate exceeded'' ''ThrottlingException'')
          else send_table cmd)"

text \<open>Three leaderboard entries whose three orders differ.\<close>

definition entry_example :: "string \<Rightarrow> int \<Rightarrow> real \<Rightarrow> real \<Rightarrow> leaderboardEntry" where
  "entry_example ad p d f =
     \<lparr>adFilename = ad, totalPlays = p, totalDuration = d, averageDuration = d / real_of_int p,
      lastPlayed = Some 259200000, error = None, frequency = Some f, deviceCount = 1\<rparr>"

definition entries_example :: "leaderboardEntry list" where
  "entries_example =
     [entry_example ''x.mp4'' 10 300 5,
      entry_example ''y.mp4'' 30 90 (15 / 2),
      entry_example ''z.mp4'' 20 600 2]"

text \<open>Three entries of which the second has the frequency \<^verbatim>\<open>NaN\<close>.\<close>

definition entries_nan_example :: "leaderboardEntry list" where
  "entries_nan_example =
     [entry_example ''x.mp4'' 10 300 1,
      (entry_example ''n.mp4'' 1 5 0)\<lparr>frequency := None\<rparr>,
      entry_example ''z.mp4'' 20 600 2]"

section \<open>Properties of the cache\<close>

text \<open>
  C2. After \<open>setCached\<close> of \<open>v\<close> under \<open>k\<close> at time \<open>t0\<close>, a \<open>getCached\<close> of \<open>k\<close> at time \<open>t1\<close>
  with a positive \<open>ttl\<close> returns \<open>v\<close> and leaves the map alone while the elapsed time
  \<open>t1 - t0\<close> is at most \<open>ttl\<close>; once the elapsed time exceeds \<open>ttl\<close> it returns null and
  the entry for \<open>k\<close> is gone from the map, every other key being untouched; and a
  \<open>getCached\<close> of a key that is not in the map returns null and changes nothing.
\<close>

theorem getCached_setCached:
  assumes "0 < ttl"
  shows "(t1 - t0 \<le> ttl \<longrightarrow>
            getCached t1 (setCached t0 cache k v) k ttl = (Some v, setCached t0 cache k v))
       \<and> (t1 - t0 > ttl \<longrightarrow>
            fst (getCached t1 (setCached t0 cache k v) k ttl) = None
          \<and> snd (getCached t1 (setCached t0 cache k v) k ttl) k = None
          \<and> (\<forall>k'. k' \<noteq> k \<longrightarrow> snd (getCached t1 (setCached t0 cache k v) k ttl) k' = cache k'))
       \<and> (cache k = None \<longrightarrow> getCached t1 cache k ttl = (None, cache))"
  by (simp add: getCached_def setCached_def)

theorem getCached_setCached_witness:
  "getCached 1030 (setCached 1000 Map.empty ''dev'' (7::nat)) ''dev'' 30
     = (Some 7, setCached 1000 Map.empty ''dev'' 7)
   \<and> fst (getCached 1031 (setCached 1000 Map.empty ''dev'' (7::nat)) ''dev'' 30) = None
   \<and> snd (getCached 1031 (setCached 1000 Map.empty ''dev'' (7::nat)) ''dev'' 30) ''dev'' = None
   \<and> getCached 1030 (Map.empty :: nat cache) ''dev'' 30 = (None, Map.empty)"
  using getCached_setCached [of 30 1030 1000 Map.empty "''dev''" "7::nat"]
        getCached_setCached [of 30 1031 1000 Map.empty "''dev''" "7::nat"]
  by simp

text \<open>
  A cached route answers with a cached value that is still fresh, and otherwise with the
  response it computes, which it stores when it is a success.
\<close>

lemma withCache_hit:
  "\<not> forceRefresh \<Longrightarrow> getCached t_get cache k ttl = (Some v, cache') \<Longrightarrow>
     withCache t_get t_set cache forceRefresh k ttl fresh = Some ((200, Inr v), cache')"
  by (simp add: withCache_def res_json_def)

lemma withCache_computed:
  "forceRefresh \<or> fst (getCached t_get cache k ttl) = None \<Longrightarrow>
     withCache t_get t_set cache forceRefresh k ttl fresh =
       (case fresh of
          None \<Rightarrow> None
        | Some (st, Inl err) \<Rightarrow>
            Some ((st, Inl err),
                  if forceRefresh then cache else snd (getCached t_get cache k ttl))
        | Some (st, Inr r) \<Rightarrow>
            Some ((st, Inr r),
                  setCached t_set (if forceRefresh then cache else snd (getCached t_get cache k ttl))
                    k r))"
  by (auto simp: withCache_def Let_def split: option.splits sum.splits prod.splits)

lemma leaderboardRoute_refresh:
  "getLeaderboard s3 send lp sp = Some (200, Inr r) \<Longrightarrow>
     \<exists>cache'. leaderboardRoute t_get t_set cache s3 send lp sp True = Some ((200, Inr r), cache')
        \<and> fst (getCached t_set cache'
                 (''ads-leaderboard-'' @ Int_toString (limitOf lp) @ ''-'' @ sortByOf sp)
                 AGGREGATE_CACHE_TTL) = Some r"
  by (simp add: leaderboardRoute_def withCache_def getCached_def setCached_def
      AGGREGATE_CACHE_TTL_def)

section \<open>Properties of the aggregator\<close>

subsection \<open>Week over week\<close>

lemma weekStats_step_snd:
  "snd (foldl weekStats_step acc its) = snd acc + sum_list (map duration_or_0 its)"
  by (induction its arbitrary: acc)
     (auto simp: weekStats_step_def duration_or_0_def split: option.splits)

lemma Set_add_distinct: "distinct s \<Longrightarrow> distinct (Set_add s x)"
  by (simp add: Set_add_def)

lemma Set_add_set: "set (Set_add s x) = insert x (set s)"
  by (auto simp: Set_add_def)

lemma weekStats_step_distinct:
  "distinct (fst acc) \<Longrightarrow> distinct (fst (foldl weekStats_step acc its))"
  by (induction its arbitrary: acc)
     (auto simp: weekStats_step_def Set_add_distinct split: option.splits)

lemma weekStats_step_set:
  "set (fst (foldl weekStats_step acc its))
     = set (fst acc) \<union> {a. a \<noteq> [] \<and> (\<exists>it\<in>set its. ad_filename it = Some a)}"
proof (induction its arbitrary: acc)
  case Nil
  then show ?case by simp
next
  case (Cons it its)
  show ?case
    unfolding foldl_Cons Cons.IH
    by (cases "ad_filename it") (auto simp: weekStats_step_def Set_add_set)
qed

lemma getWeekStats_plays: "plays (getWeekStats its) = int (length its)"
  by (simp add: getWeekStats_def Let_def)

lemma getWeekStats_duration: "duration (getWeekStats its) = sum_list (map duration_or_0 its)"
  by (simp add: getWeekStats_def Let_def weekStats_step_snd)

lemma getWeekStats_uniqueAds:
  "uniqueAds (getWeekStats its)
     = int (card {a. a \<noteq> [] \<and> (\<exists>it\<in>set its. ad_filename it = Some a)})"
proof -
  let ?s = "fst (foldl weekStats_step ([], 0) its)"
  have "distinct ?s" by (rule weekStats_step_distinct) simp
  then have "length ?s = card (set ?s)" by (simp add: distinct_card)
  also have "set ?s = {a. a \<noteq> [] \<and> (\<exists>it\<in>set its. ad_filename it = Some a)}"
    by (simp add: weekStats_step_set)
  finally show ?thesis by (simp add: getWeekStats_def Let_def)
qed

lemma count_list_filter:
  "count_list (filter P xs) x = (if P x then count_list xs x else 0)"
  by (induction xs) auto

text \<open>
  C1. For every list of play records and every reference time \<open>now\<close>: a record with
  timestamp \<open>ts\<close> is in \<open>currentWeekItems\<close>, as often as it is in the list, iff
  \<open>ts \<ge> now - 7d\<close>, and in \<open>previousWeekItems\<close> iff \<open>now - 14d \<le> ts < now - 7d\<close>
  (7 days are 604800000 ms); a record whose timestamp is missing, empty or null is in
  neither; no record is in
  both, and one exactly at the 7-day boundary is in the current week only. The response
  holds the statistics of the two windows, \<open>plays\<close> being their lengths, and each field
  of \<open>change\<close> is the current value minus the previous one. Records at \<open>now - 3d\<close> and
  \<open>now - 10d\<close> give plays 1, 1 and change 0.
\<close>

theorem weekComparison_windows:
  "(\<forall>it ts. timestamp it = Instant ts \<longrightarrow>
       count_list (currentWeekItems now allItems) it
         = (if ts \<ge> now - 604800000 then count_list allItems it else 0)
     \<and> count_list (previousWeekItems now allItems) it
         = (if now - 1209600000 \<le> ts \<and> ts < now - 604800000 then count_list allItems it else 0))
   \<and> (\<forall>it. timestamp it = NoTimestamp \<or> timestamp it = NullTimestamp \<longrightarrow>
         it \<notin> set (currentWeekItems now allItems) \<and> it \<notin> set (previousWeekItems now allItems))
   \<and> set (currentWeekItems now allItems) \<inter> set (previousWeekItems now allItems) = {}
   \<and> (\<forall>it\<in>set allItems. timestamp it = Instant (now - 604800000) \<longrightarrow>
         it \<in> set (currentWeekItems now allItems) \<and> it \<notin> set (previousWeekItems now allItems))
   \<and> currentWeek (weekComparison now allItems) = getWeekStats (currentWeekItems now allItems)
   \<and> previousWeek (weekComparison now allItems) = getWeekStats (previousWeekItems now allItems)
   \<and> plays (currentWeek (weekComparison now allItems)) = int (length (currentWeekItems now allItems))
   \<and> plays (previousWeek (weekComparison now allItems)) = int (length (previousWeekItems now allItems))
   \<and> plays (change (weekComparison now allItems))
       = plays (currentWeek (weekComparison now allItems)) - plays (previousWeek (weekComparison now allItems))
   \<and> duration (change (weekComparison now allItems))
       = duration (currentWeek (weekComparison now allItems)) - duration (previousWeek (weekComparison now allItems))
   \<and> uniqueAds (change (weekComparison now allItems))
       = uniqueAds (currentWeek (weekComparison now allItems)) - uniqueAds (previousWeek (weekComparison now allItems))
   \<and> (timestamp a = Instant (now - 259200000) \<and> timestamp b = Instant (now - 864000000) \<longrightarrow>
         plays (currentWeek (weekComparison now [a, b])) = 1
       \<and> plays (previousWeek (weekComparison now [a, b])) = 1
       \<and> plays (change (weekComparison now [a, b])) = 0)"
proof -
  have w1: "\<forall>it ts. timestamp it = Instant ts \<longrightarrow>
       count_list (currentWeekItems now allItems) it
         = (if ts \<ge> now - 604800000 then count_list allItems it else 0)
     \<and> count_list (previousWeekItems now allItems) it
         = (if now - 1209600000 \<le> ts \<and> ts < now - 604800000 then count_list allItems it else 0)"
    by (simp add: currentWeekItems_def previousWeekItems_def count_list_filter oneWeekAgo_def twoWeeksAgo_def)
  have w2: "\<forall>it. timestamp it = NoTimestamp \<or> timestamp it = NullTimestamp \<longrightarrow>
         it \<notin> set (currentWeekItems now allItems) \<and> it \<notin> set (previousWeekItems now allItems)"
    by (simp add: currentWeekItems_def previousWeekItems_def)
  have w3: "set (currentWeekItems now allItems) \<inter> set (previousWeekItems now allItems) = {}"
  proof -
    have "\<not> (x \<in> set (currentWeekItems now allItems) \<and> x \<in> set (previousWeekItems now allItems))"
      for x
      by (cases "timestamp x") (simp_all add: currentWeekItems_def previousWeekItems_def)
    then show ?thesis by blast
  qed
  have w4: "\<forall>it\<in>set allItems. timestamp it = Instant (now - 604800000) \<longrightarrow>
         it \<in> set (currentWeekItems now allItems) \<and> it \<notin> set (previousWeekItems now allItems)"
    by (simp add: currentWeekItems_def previousWeekItems_def oneWeekAgo_def twoWeeksAgo_def)
  have w5: "currentWeek (weekComparison now allItems) = getWeekStats (currentWeekItems now allItems)"
     "previousWeek (weekComparison now allItems) = getWeekStats (previousWeekItems now allItems)"
    by (simp_all add: weekComparison_def Let_def)
  have w6: "plays (change (weekComparison now allItems))
       = plays (currentWeek (weekComparison now allItems)) - plays (previousWeek (weekComparison now allItems))"
    "duration (change (weekComparison now allItems))
       = duration (currentWeek (weekComparison now allItems)) - duration (previousWeek (weekComparison now allItems))"
   "uniqueAds (change (weekComparison now allItems))
       = uniqueAds (currentWeek (weekComparison now allItems)) - uniqueAds (previousWeek (weekComparison now allItems))"
    by (simp_all add: weekComparison_def Let_def)
  have w7: "timestamp a = Instant (now - 259200000) \<and> timestamp b = Instant (now - 864000000) \<longrightarrow>
         plays (currentWeek (weekComparison now [a, b])) = 1
       \<and> plays (previousWeek (weekComparison now [a, b])) = 1
       \<and> plays (change (weekComparison now [a, b])) = 0"
    by (simp add: weekComparison_def Let_def getWeekStats_plays currentWeekItems_def
        previousWeekItems_def oneWeekAgo_def twoWeeksAgo_def)
  show ?thesis
    using w1 w2 w3 w4 w5 w6 w7 by (simp only: getWeekStats_plays simp_thms)
qed


theorem weekComparison_windows_witness:
  "plays (currentWeek (weekComparison 1209600000
      [\<lparr>play_id = None, ad_filename = Some ''a.mp4'', timestamp = Instant 950400000, play_duration = Some 5\<rparr>,
       \<lparr>play_id = None, ad_filename = Some ''b.mp4'', timestamp = Instant 345600000, play_duration = None\<rparr>])) = 1
   \<and> plays (previousWeek (weekComparison 1209600000
      [\<lparr>play_id = None, ad_filename = Some ''a.mp4'', timestamp = Instant 950400000, play_duration = Some 5\<rparr>,
       \<lparr>play_id = None, ad_filename = Some ''b.mp4'', timestamp = Instant 345600000, play_duration = None\<rparr>])) = 1
   \<and> plays (change (weekComparison 1209600000
      [\<lparr>play_id = None, ad_filename = Some ''a.mp4'', timestamp = Instant 950400000, play_duration = Some 5\<rparr>,
       \<lparr>play_id = None, ad_filename = Some ''b.mp4'', timestamp = Instant 345600000, play_duration = None\<rparr>])) = 0"
  using weekComparison_windows [of 1209600000 "[]"
      "\<lparr>play_id = None, ad_filename = Some ''a.mp4'', timestamp = Instant 950400000, play_duration = Some 5\<rparr>"
      "\<lparr>play_id = None, ad_filename = Some ''b.mp4'', timestamp = Instant 345600000, play_duration = None\<rparr>"]
  by simp

subsection \<open>Per-ad statistics\<close>

lemma foldl_plus_sum_list:
  "foldl (\<lambda>s x. s + f x) a xs = (a::real) + sum_list (map f xs)"
  by (induction xs arbitrary: a) auto

lemma sumDuration_sum_list: "sumDuration its = sum_list (map duration_or_0 its)"
  by (simp add: sumDuration_def foldl_plus_sum_list)

text \<open>
  C7. For every ad and every list of matching play records, \<open>totalPlays\<close> is the number of
  records, \<open>totalDuration\<close> the sum of their \<open>play_duration\<close> with an absent duration
  counted as 0, \<open>averageDuration\<close> is \<open>totalDuration / totalPlays\<close> when \<open>totalPlays > 0\<close> and
  0 otherwise, and with no record \<open>lastPlayed\<close> is null and the average 0. One record of
  duration 5 gives total 5 and average 5.
\<close>

theorem adStatsOf_aggregation:
  "totalPlays (adStatsOf ad its) = int (length its)
   \<and> totalDuration (adStatsOf ad its)
       = (\<Sum>it\<leftarrow>its. case play_duration it of None \<Rightarrow> 0 | Some d \<Rightarrow> d)
   \<and> (totalPlays (adStatsOf ad its) > 0 \<longrightarrow>
         averageDuration (adStatsOf ad its)
           = totalDuration (adStatsOf ad its) / real_of_int (totalPlays (adStatsOf ad its)))
   \<and> (\<not> totalPlays (adStatsOf ad its) > 0 \<longrightarrow> averageDuration (adStatsOf ad its) = 0)
   \<and> lastPlayed (adStatsOf ad []) = None
   \<and> averageDuration (adStatsOf ad []) = 0
   \<and> (play_duration it = Some 5 \<longrightarrow>
         totalDuration (adStatsOf ad [it]) = 5 \<and> averageDuration (adStatsOf ad [it]) = 5)"
proof -
  have d: "duration_or_0 = (\<lambda>it. case play_duration it of None \<Rightarrow> 0 | Some d \<Rightarrow> d)"
    by (rule ext) (simp add: duration_or_0_def)
  show ?thesis
    by (simp add: adStatsOf_def Let_def sumDuration_sum_list lastPlayedOf_def d)
qed

theorem adStatsOf_aggregation_witness:
  "totalPlays (adStatsOf ''a.mp4'' [\<lparr>play_id = None, ad_filename = Some ''a.mp4'', timestamp = Instant 1000, play_duration = Some 5\<rparr>]) = 1
   \<and> totalDuration (adStatsOf ''a.mp4'' [\<lparr>play_id = None, ad_filename = Some ''a.mp4'', timestamp = Instant 1000, play_duration = Some 5\<rparr>]) = 5
   \<and> averageDuration (adStatsOf ''a.mp4'' [\<lparr>play_id = None, ad_filename = Some ''a.mp4'', timestamp = Instant 1000, play_duration = Some 5\<rparr>]) = 5"
  using adStatsOf_aggregation [of "''a.mp4''"
      "[\<lparr>play_id = None, ad_filename = Some ''a.mp4'', timestamp = Instant 1000, play_duration = Some 5\<rparr>]"
      "\<lparr>play_id = None, ad_filename = Some ''a.mp4'', timestamp = Instant 1000, play_duration = Some 5\<rparr>"]
  by simp

subsection \<open>Hourly patterns\<close>

lemma Map_get_Map_set:
  "Map_get (Map_set m k v) k' = (if k' = k then Some v else Map_get m k')"
  by (induction m) auto

lemma Map_get_None_iff: "Map_get m k = None \<longleftrightarrow> k \<notin> fst ` set m"
  by (induction m) (auto split: if_splits)

lemma Map_set_keys: "fst ` set (Map_set m k v) = insert k (fst ` set m)"
proof (rule set_eqI)
  fix x
  show "x \<in> fst ` set (Map_set m k v) \<longleftrightarrow> x \<in> insert k (fst ` set m)"
    using Map_get_None_iff [of "Map_set m k v" x] Map_get_None_iff [of m x]
    by (simp add: Map_get_Map_set split: if_splits)
qed

lemma Map_set_distinct: "distinct (map fst m) \<Longrightarrow> distinct (map fst (Map_set m k v))"
  by (induction m) (auto simp: Map_set_keys)

lemma Map_get_Some_mem: "Map_get m k = Some v \<Longrightarrow> (k, v) \<in> set m"
  by (induction m) (auto split: if_splits)

lemma Map_get_mem: "distinct (map fst m) \<Longrightarrow> (k, v) \<in> set m \<Longrightarrow> Map_get m k = Some v"
  by (induction m) (auto simp: rev_image_eqI)

lemma digits_ok:
  "list_all (\<lambda>d. digit_val (digit_char d) = d \<and> digit_char d \<in> set ''0123456789''
      \<and> digit_char d \<noteq> CHR ''-'') [0..<10]"
  by code_simp

lemma digit_ok:
  assumes "d < 10"
  shows "digit_val (digit_char d) = d" and "digit_char d \<in> set ''0123456789''"
    and "digit_char d \<noteq> CHR ''-''"
proof -
  from assms have "d \<in> set [0..<10]" by simp
  with digits_ok show "digit_val (digit_char d) = d" and "digit_char d \<in> set ''0123456789''"
    and "digit_char d \<noteq> CHR ''-''"
    unfolding list_all_iff by blast+
qed

lemma toString_digits: "list_all (\<lambda>c. c \<in> set ''0123456789'') (toString n)"
proof (induction n rule: toString.induct)
  case (1 n)
  show ?case
  proof (cases "n < 10")
    case True
    then show ?thesis using digit_ok(2) [of n] by (subst toString.simps) simp
  next
    case False
    then show ?thesis using 1 digit_ok(2) [of "n mod 10"] by (subst toString.simps) simp
  qed
qed

lemma toString_value: "foldl (\<lambda>acc c. 10 * acc + digit_val c) 0 (toString n) = n"
proof (induction n rule: toString.induct)
  case (1 n)
  show ?case
  proof (cases "n < 10")
    case True
    then show ?thesis using digit_ok(1) [of n] by (subst toString.simps) simp
  next
    case False
    then show ?thesis using 1 digit_ok(1) [of "n mod 10"] by (subst toString.simps) simp
  qed
qed

lemma Number_toString: "Number (toString n) = Some n"
  using toString_digits [of n] by (simp add: Number_def toString_value del: set_simps)

lemma toString_no_dash: "CHR ''-'' \<notin> set (toString n)"
proof (induction n rule: toString.induct)
  case (1 n)
  show ?case
  proof (cases "n < 10")
    case True
    then show ?thesis using digit_ok(3) [of n] by (subst toString.simps) auto
  next
    case False
    then show ?thesis using 1 digit_ok(3) [of "n mod 10"] by (subst toString.simps) auto
  qed
qed

lemma split_on_absent: "sep \<notin> set s \<Longrightarrow> split_on sep s = [s]"
  by (induction s) auto

lemma toString_inj: "toString a = toString b \<Longrightarrow> a = b"
  by (metis Number_toString option.inject)

lemma hourMap_distinct:
  "distinct (map fst m) \<Longrightarrow> distinct (map fst (foldl (hourMap_step inc) m its))"
  by (induction its arbitrary: m)
     (auto simp: hourMap_step_def Let_def Map_set_distinct split: tstamp.splits)

lemma hourMap_get:
  "Map_get (foldl (hourMap_step inc) [] its) k =
     (let xs = filter (\<lambda>it. case timestamp it of Instant date \<Rightarrow> hourKey inc date = k
                              | _ \<Rightarrow> False) its
      in if xs = [] then None
         else Some \<lparr>plays = int (length xs), duration = sum_list (map duration_or_0 xs)\<rparr>)"
proof (induction its rule: rev_induct)
  case Nil
  then show ?case by simp
next
  case (snoc x xs)
  show ?case
  proof (cases "timestamp x")
    case NoTimestamp
    then show ?thesis using snoc by (simp add: hourMap_step_def)
  next
    case NullTimestamp
    then show ?thesis using snoc by (simp add: hourMap_step_def)
  next
    case (Instant date)
    show ?thesis
    proof (cases "hourKey inc date = k")
      case True
      then show ?thesis using snoc Instant
        by (simp add: hourMap_step_def Let_def Map_get_Map_set)
    next
      case False
      then show ?thesis using snoc Instant
        by (simp add: hourMap_step_def Let_def Map_get_Map_set)
    qed
  qed
qed

lemma hourKey_False_filter:
  "filter (\<lambda>it. case timestamp it of Instant date \<Rightarrow> hourKey False date = toString h
                | _ \<Rightarrow> False) its = itemsAtHour h its"
  unfolding itemsAtHour_def
  by (rule filter_cong) (auto simp: hourKey_def split: tstamp.splits dest: toString_inj)

lemma hourPattern_of_toString:
  "hourPattern_of False (toString h, b)
     = \<lparr>plays = plays b, duration = duration b, hour = Some h, dayOfWeek = None\<rparr>"
  by (simp add: hourPattern_of_def split_on_absent toString_no_dash Number_toString)

lemma hourMap_False_entry:
  assumes "(k, b) \<in> set (foldl (hourMap_step False) [] its)"
  shows "\<exists>h. k = toString h \<and> h < 24 \<and> itemsAtHour h its \<noteq> []
            \<and> b = \<lparr>plays = int (length (itemsAtHour h its)),
                    duration = sum_list (map duration_or_0 (itemsAtHour h its))\<rparr>"
proof -
  let ?xs = "filter (\<lambda>it. case timestamp it of Instant date \<Rightarrow> hourKey False date = k
                          | _ \<Rightarrow> False) its"
  have "Map_get (foldl (hourMap_step False) [] its) k = Some b"
    using assms by (intro Map_get_mem hourMap_distinct) simp_all
  then have ne: "?xs \<noteq> []"
    and b: "b = \<lparr>plays = int (length ?xs), duration = sum_list (map duration_or_0 ?xs)\<rparr>"
    by (simp_all add: hourMap_get Let_def split: if_splits)
  from ne obtain it where "it \<in> set ?xs" by (cases ?xs) auto
  then obtain date where "timestamp it = Instant date" "hourKey False date = k"
    by (auto split: tstamp.splits)
  then have k: "k = toString (getUTCHours date)" by (simp add: hourKey_def)
  have "getUTCHours date < 24" by (simp add: getUTCHours_def)
  with ne b show ?thesis unfolding k hourKey_False_filter by blast
qed

lemma hourMap_False_present:
  assumes "itemsAtHour h its \<noteq> []"
  shows "\<exists>b. (toString h, b) \<in> set (foldl (hourMap_step False) [] its)"
proof -
  have "Map_get (foldl (hourMap_step False) [] its) (toString h) \<noteq> None"
    using assms by (simp add: hourMap_get hourKey_False_filter Let_def)
  then show ?thesis by (auto dest: Map_get_Some_mem)
qed

lemma hourlyPatterns_hours:
  "map hour (hourlyPatterns False its)
     = map (\<lambda>k. case map Number (split_on CHR ''-'' k) of [] \<Rightarrow> None | x # _ \<Rightarrow> x)
           (map fst (foldl (hourMap_step False) [] its))"
  by (simp add: hourlyPatterns_def hourPattern_of_def Let_def comp_def)

lemma hourlyPatterns_distinct: "distinct (map hour (hourlyPatterns False its))"
proof -
  let ?g = "\<lambda>k. case map Number (split_on CHR ''-'' k) of [] \<Rightarrow> None | x # _ \<Rightarrow> x"
  let ?ks = "map fst (foldl (hourMap_step False) [] its)"
  have g: "?g (toString h) = Some h" for h
    by (simp add: split_on_absent toString_no_dash Number_toString)
  have i: "inj_on ?g (set ?ks)"
  proof (rule inj_onI)
    fix k1 k2
    assume "k1 \<in> set ?ks" "k2 \<in> set ?ks" and eq: "?g k1 = ?g k2"
    then obtain h1 h2 where "k1 = toString h1" "k2 = toString h2"
      by (auto dest!: hourMap_False_entry)
    with eq show "k1 = k2" by (simp only: g) simp
  qed
  have d: "distinct ?ks" by (rule hourMap_distinct) simp
  have "distinct (map ?g ?ks)"
    by (rule distinct_map [THEN iffD2]) (rule conjI [OF d i])
  then show ?thesis by (simp only: hourlyPatterns_hours)
qed

text \<open>
  C4, as the handler has it. With \<open>includeDayOfWeek = false\<close>, every bucket of the response
  is keyed by a UTC hour of the day \<open>h < 24\<close> in which at least one record with a timestamp
  falls, carries no \<open>dayOfWeek\<close>, and has \<open>plays\<close> equal to the number of records in that
  hour and \<open>duration\<close> equal to the sum of their \<open>play_duration\<close> (an absent one counted as
  0); every hour in which a record falls has a bucket, and no hour has two. Hours without
  records have no bucket: only populated hours appear. Records at hours 3, 3 and 14 give
  the buckets \<open>{hour: 3, plays: 2}\<close> and \<open>{hour: 14, plays: 1}\<close>.
\<close>

theorem hourlyPatterns_populated_hours:
  "(\<forall>p\<in>set (hourlyPatterns False allItems).
      \<exists>h<24. hour p = Some h \<and> dayOfWeek p = None \<and> itemsAtHour h allItems \<noteq> []
        \<and> plays p = int (length (itemsAtHour h allItems))
        \<and> duration p = (\<Sum>it\<leftarrow>itemsAtHour h allItems. duration_or_0 it))
   \<and> (\<forall>h. itemsAtHour h allItems \<noteq> [] \<longrightarrow>
          (\<exists>p\<in>set (hourlyPatterns False allItems). hour p = Some h))
   \<and> distinct (map hour (hourlyPatterns False allItems))
   \<and> (timestamp a = Instant ta \<and> timestamp b = Instant tb \<and> timestamp c = Instant tc
        \<and> getUTCHours ta = 3 \<and> getUTCHours tb = 3 \<and> getUTCHours tc = 14 \<longrightarrow>
      hourlyPatterns False [a, b, c]
        = [\<lparr>plays = 2, duration = duration_or_0 a + duration_or_0 b, hour = Some 3, dayOfWeek = None\<rparr>,
           \<lparr>plays = 1, duration = duration_or_0 c, hour = Some 14, dayOfWeek = None\<rparr>])"
proof -
  have p1: "\<forall>p\<in>set (hourlyPatterns False allItems).
      \<exists>h<24. hour p = Some h \<and> dayOfWeek p = None \<and> itemsAtHour h allItems \<noteq> []
        \<and> plays p = int (length (itemsAtHour h allItems))
        \<and> duration p = (\<Sum>it\<leftarrow>itemsAtHour h allItems. duration_or_0 it)"
  proof
    fix p
    assume "p \<in> set (hourlyPatterns False allItems)"
    then obtain k b where kb: "(k, b) \<in> set (foldl (hourMap_step False) [] allItems)"
      and p: "p = hourPattern_of False (k, b)"
      by (auto simp: hourlyPatterns_def)
    from hourMap_False_entry [OF kb] obtain h where h: "k = toString h" "h < 24"
      "itemsAtHour h allItems \<noteq> []"
      "b = \<lparr>plays = int (length (itemsAtHour h allItems)),
            duration = sum_list (map duration_or_0 (itemsAtHour h allItems))\<rparr>"
      by blast
    have "hour p = Some h \<and> dayOfWeek p = None
        \<and> plays p = int (length (itemsAtHour h allItems))
        \<and> duration p = (\<Sum>it\<leftarrow>itemsAtHour h allItems. duration_or_0 it)"
      unfolding p h(1) hourPattern_of_toString by (simp add: h(4))
    with h(2,3) show "\<exists>h<24. hour p = Some h \<and> dayOfWeek p = None \<and> itemsAtHour h allItems \<noteq> []
        \<and> plays p = int (length (itemsAtHour h allItems))
        \<and> duration p = (\<Sum>it\<leftarrow>itemsAtHour h allItems. duration_or_0 it)"
      by blast
  qed
  have p2: "\<forall>h. itemsAtHour h allItems \<noteq> [] \<longrightarrow>
          (\<exists>p\<in>set (hourlyPatterns False allItems). hour p = Some h)"
  proof (intro allI impI)
    fix h
    assume "itemsAtHour h allItems \<noteq> []"
    from hourMap_False_present [OF this] obtain b
      where "(toString h, b) \<in> set (foldl (hourMap_step False) [] allItems)" ..
    then have "hourPattern_of False (toString h, b) \<in> set (hourlyPatterns False allItems)"
      by (auto simp: hourlyPatterns_def)
    then show "\<exists>p\<in>set (hourlyPatterns False allItems). hour p = Some h"
      by (rule rev_bexI) (simp add: hourPattern_of_toString)
  qed
  have p4: "timestamp a = Instant ta \<and> timestamp b = Instant tb \<and> timestamp c = Instant tc
        \<and> getUTCHours ta = 3 \<and> getUTCHours tb = 3 \<and> getUTCHours tc = 14 \<longrightarrow>
      hourlyPatterns False [a, b, c]
        = [\<lparr>plays = 2, duration = duration_or_0 a + duration_or_0 b, hour = Some 3, dayOfWeek = None\<rparr>,
           \<lparr>plays = 1, duration = duration_or_0 c, hour = Some 14, dayOfWeek = None\<rparr>]"
    by (simp add: hourlyPatterns_def hourMap_step_def hourKey_def hourPattern_of_def
        toString.simps Number_def digit_char_def digit_val_def)
  from p1 p2 hourlyPatterns_distinct p4 show ?thesis by blast
qed

theorem hourlyPatterns_populated_hours_witness:
  "hourlyPatterns False
     [\<lparr>play_id = None, ad_filename = None, timestamp = Instant 10800000, play_duration = Some 5\<rparr>,
      \<lparr>play_id = None, ad_filename = None, timestamp = Instant 97200001, play_duration = None\<rparr>,
      \<lparr>play_id = None, ad_filename = None, timestamp = Instant 50400000, play_duration = Some 2\<rparr>]
   = [\<lparr>plays = 2, duration = 5, hour = Some 3, dayOfWeek = None\<rparr>,
      \<lparr>plays = 1, duration = 2, hour = Some 14, dayOfWeek = None\<rparr>]"
  using hourlyPatterns_populated_hours [of "[]"
      "\<lparr>play_id = None, ad_filename = None, timestamp = Instant 10800000, play_duration = Some 5\<rparr>" 10800000
      "\<lparr>play_id = None, ad_filename = None, timestamp = Instant 97200001, play_duration = None\<rparr>" 97200001
      "\<lparr>play_id = None, ad_filename = None, timestamp = Instant 50400000, play_duration = Some 2\<rparr>" 50400000]
  by (simp add: getUTCHours_def duration_or_0_def itemsAtHour_def hourlyPatterns_def)

text \<open>
  The claim as written also asks for all 24 hours in the output, the empty ones with
  \<open>plays: 0\<close>. With no record the response has no bucket at all, and with one record at
  hour 3 it has that one bucket.
\<close>

theorem hourlyPatterns_empty_hours_counterexample:
  "hourlyPatterns False [] = []
   \<and> hourlyPatterns False
        [\<lparr>play_id = None, ad_filename = None, timestamp = Instant 10800000, play_duration = Some 5\<rparr>]
      = [\<lparr>plays = 1, duration = 5, hour = Some 3, dayOfWeek = None\<rparr>]"
  by (simp add: hourlyPatterns_def hourMap_step_def hourKey_def hourPattern_of_def
      toString.simps Number_def digit_char_def digit_val_def getUTCHours_def duration_or_0_def)

section \<open>Properties of the listing routes\<close>

lemma set_map_filter_map_option:
  "set (List.map_filter (map_option f) xs) = {f p |p. Some p \<in> set xs}"
  by (induction xs) (auto simp: List.map_filter_simps split: option.splits)

lemma deviceNames_sorted: "sorted (deviceNames r)"
  by (simp add: deviceNames_def Array_sort_default_def)

lemma deviceNames_set:
  "set (deviceNames r) =
     {d. d \<noteq> [] \<and> d \<noteq> ''ad_metrics''
         \<and> (\<exists>ps p. CommonPrefixes r = Some ps \<and> Some p \<in> set ps \<and> d = replace ''/'' '''' p)}"
  by (cases "CommonPrefixes r")
     (auto simp: deviceNames_def Array_sort_default_def set_map_filter_map_option)

lemma adNames_sorted: "sorted (adNames pre r)"
  by (simp add: adNames_def Array_sort_default_def)

lemma adNames_unsorted_set:
  "set (adNames_unsorted pre r) =
     {a. a \<noteq> [] \<and> suffix ''.mp4'' a
         \<and> (\<exists>os k. Contents r = Some os \<and> Some k \<in> set os \<and> a = replace pre '''' k)}"
  by (cases "Contents r")
     (auto simp: adNames_unsorted_def endsWith_def set_map_filter_map_option)

lemma adNames_set: "set (adNames pre r) = set (adNames_unsorted pre r)"
  by (simp add: adNames_def Array_sort_default_def)

text \<open>
  C10. Every successful response of \<^verbatim>\<open>GET /api/devices\<close> comes from a listing that
  succeeded and carries the device names in ascending lexicographic order: the common
  prefixes with their first \<^verbatim>\<open>/\<close> removed, without the empty name and without the
  reserved \<^verbatim>\<open>ad_metrics\<close>. Every successful response of \<^verbatim>\<open>GET /api/devices/:id/ads\<close>
  carries, in ascending lexicographic order, the keys under the device's prefix with
  that prefix removed, restricted to the names ending in \<^verbatim>\<open>.mp4\<close>.
\<close>

theorem listings_sorted:
  "(fst (getDevices s3) = 200 \<longrightarrow>
      (\<exists>r. s3 \<lparr>Bucket = S3_BUCKET, Delimiter = Some ''/'', Prefix = None\<rparr> = Inr r
         \<and> snd (getDevices s3) = Inr \<lparr>devices = deviceNames r\<rparr>
         \<and> sorted (deviceNames r)
         \<and> (\<forall>d. d \<in> set (deviceNames r) \<longleftrightarrow>
               d \<noteq> [] \<and> d \<noteq> ''ad_metrics''
               \<and> (\<exists>ps p. CommonPrefixes r = Some ps \<and> Some p \<in> set ps
                     \<and> d = replace ''/'' '''' p))))
   \<and> (fst (getDeviceAds s3 dev) = 200 \<longrightarrow>
      (\<exists>r. s3 \<lparr>Bucket = S3_BUCKET, Delimiter = None, Prefix = Some (dev @ ''/'')\<rparr> = Inr r
         \<and> snd (getDeviceAds s3 dev) = Inr \<lparr>ads = adNames (dev @ ''/'') r, deviceId = dev\<rparr>
         \<and> sorted (adNames (dev @ ''/'') r)
         \<and> (\<forall>a. a \<in> set (adNames (dev @ ''/'') r) \<longleftrightarrow>
               a \<noteq> [] \<and> suffix ''.mp4'' a
               \<and> (\<exists>os k. Contents r = Some os \<and> Some k \<in> set os
                     \<and> a = replace (dev @ ''/'') '''' k))))"
proof -
  have a: "fst (getDevices s3) = 200 \<longrightarrow>
      (\<exists>r. s3 \<lparr>Bucket = S3_BUCKET, Delimiter = Some ''/'', Prefix = None\<rparr> = Inr r
         \<and> snd (getDevices s3) = Inr \<lparr>devices = deviceNames r\<rparr>)"
    by (simp add: getDevices_def res_json_def res_error_500_def split: sum.splits)
  have b: "fst (getDeviceAds s3 dev) = 200 \<longrightarrow>
      (\<exists>r. s3 \<lparr>Bucket = S3_BUCKET, Delimiter = None, Prefix = Some (dev @ ''/'')\<rparr> = Inr r
         \<and> snd (getDeviceAds s3 dev) = Inr \<lparr>ads = adNames (dev @ ''/'') r, deviceId = dev\<rparr>)"
    by (simp add: getDeviceAds_def Let_def res_json_def res_error_500_def split: sum.splits)
  show ?thesis
    using a b
    by (simp only: deviceNames_sorted adNames_sorted deviceNames_set adNames_set
        adNames_unsorted_set mem_Collect_eq simp_thms)
qed

theorem listings_sorted_witness:
  "getDevices s3_example = (200, Inr \<lparr>devices = [''tv-a'', ''tv-b'']\<rparr>)
   \<and> sorted (deviceNames
        \<lparr>CommonPrefixes = Some [Some ''tv-b/'', Some ''ad_metrics/'', None, Some ''tv-a/''],
         Contents = None\<rparr>)
   \<and> getDeviceAds s3_example ''tv-a''
       = (200, Inr \<lparr>ads = [''b.mp4'', ''z.mp4''], deviceId = ''tv-a''\<rparr>)"
  using listings_sorted [of s3_example "''tv-a''"]
  by (simp add: getDevices_def getDeviceAds_def s3_example_def res_json_def deviceNames_def
      adNames_def adNames_unsorted_def Array_sort_default_def List.map_filter_simps
      S3_BUCKET_def endsWith_def suffix_def)

section \<open>Properties of the generic query route\<close>

text \<open>
  C9, as the route has it. A body whose \<open>tableName\<close> is missing or empty is answered with
  status 400 and the body \<^verbatim>\<open>{error: 'Table name is required'}\<close>, which has no \<open>code\<close>,
  and no command is sent to the store. Otherwise exactly one command is sent; when the
  store rejects it the answer is status 500 with \<open>code\<close> the error's name and \<open>error\<close> the
  error's message, unless that message is empty, in which case it is
  \<^verbatim>\<open>'Failed to fetch statistics'\<close>; when the store answers, the status is 200.
\<close>

theorem postStats_errors:
  "(\<not> truthy (tableName b) \<longrightarrow>
      postStats send b
        = ((400, Inl \<lparr>body_error = ''Table name is required'', body_code = None\<rparr>), []))
   \<and> (\<forall>table. tableName b = Some table \<and> table \<noteq> [] \<longrightarrow>
        snd (postStats send b) = [statsCommand b table]
      \<and> (\<forall>e. send (statsCommand b table) = Inl e \<longrightarrow>
            fst (postStats send b)
              = (500, Inl \<lparr>body_error = (if message e \<noteq> [] then message e
                                          else ''Failed to fetch statistics''),
                           body_code = Some (name e)\<rparr>))
      \<and> (\<forall>r. send (statsCommand b table) = Inr r \<longrightarrow> fst (fst (postStats send b)) = 200))"
  by (auto simp: postStats_def truthy_def Let_def res_error_500_def res_json_def
      split: option.splits sum.splits)

theorem postStats_errors_witness:
  "postStats send_unavailable (body_example\<lparr>tableName := None\<rparr>)
     = ((400, Inl \<lparr>body_error = ''Table name is required'', body_code = None\<rparr>), [])
   \<and> fst (postStats send_unavailable body_example)
     = (500, Inl \<lparr>body_error = ''Requested resource not found'',
                  body_code = Some ''ResourceNotFoundException''\<rparr>)
   \<and> fst (fst (postStats send_nothing body_example)) = 200"
  using postStats_errors [of "body_example\<lparr>tableName := None\<rparr>" send_unavailable]
    postStats_errors [of body_example send_unavailable]
    postStats_errors [of body_example send_nothing]
  by (simp add: body_example_def truthy_def send_unavailable_def send_nothing_def)

text \<open>
  The claim as written gives every error body of the route a \<open>code\<close>. The 400 body has
  none.
\<close>

theorem postStats_400_code_counterexample:
  "fst (postStats send_unavailable (body_example\<lparr>tableName := None\<rparr>))
     = (400, Inl \<lparr>body_error = ''Table name is required'', body_code = None\<rparr>)"
  by (simp add: postStats_def body_example_def)

section \<open>Properties of the pagination walker\<close>

lemma deviceQuery_written_out:
  "deviceQuery dev tok =
     \<lparr>TableName = ''attentv-ad-plays-prod'',
      IndexName = Some ''device-index'',
      KeyConditionExpression = ''#device = :device'',
      FilterExpression = None,
      ExpressionAttributeNames = [(''#device'', ''device_id'')],
      ExpressionAttributeValues = [('':device'', dev)],
      Limit = None,
      ExclusiveStartKey = tok\<rparr>"
  by (simp add: deviceQuery_def)

lemma servesPages_Cons:
  "servesPages send dev s tok (p # ps) =
     (case send s (QueryCommand (deviceQuery dev tok)) of
        (Inl e, s') \<Rightarrow> False
      | (Inr response, s') \<Rightarrow>
          response = p \<and>
          (case LastEvaluatedKey p of
             None \<Rightarrow> ps = []
           | Some k \<Rightarrow> ps \<noteq> [] \<and> servesPages send dev s' (Some k) ps))"
  by (simp add: deviceQuery_written_out)

lemma getAllItems_loop_pages:
  "servesPages send dev s tok ps \<Longrightarrow>
   \<exists>s'. getAllItems_loop send dev s acc tok sent
      = Some (Inr (acc @ concat (map pageItems ps)),
              sent @ map (\<lambda>t. QueryCommand (deviceQuery dev t))
                         (tok # map LastEvaluatedKey (butlast ps)),
              s')"
proof (induction ps arbitrary: s tok acc sent)
  case Nil
  then show ?case by simp
next
  case (Cons p ps)
  obtain r s1 where snd: "send s (QueryCommand (deviceQuery dev tok)) = (r, s1)"
    by (cases "send s (QueryCommand (deviceQuery dev tok))")
  with Cons.prems [unfolded servesPages_Cons] obtain resp where r: "r = Inr p"
    by (cases r) auto
  show ?case
  proof (cases "LastEvaluatedKey p")
    case None
    with Cons.prems [unfolded servesPages_Cons] snd r have "ps = []" by simp
    with None snd r show ?thesis
      by (subst getAllItems_loop.simps) (simp add: pageItems_def Let_def split: option.splits)
  next
    case (Some k)
    with Cons.prems [unfolded servesPages_Cons] snd r have ne: "ps \<noteq> []" and sv: "servesPages send dev s1 (Some k) ps"
      by simp_all
    from Cons.IH [OF sv, of "acc @ pageItems p" "sent @ [QueryCommand (deviceQuery dev tok)]"]
    obtain s' where "getAllItems_loop send dev s1 (acc @ pageItems p) (Some k)
        (sent @ [QueryCommand (deviceQuery dev tok)])
      = Some (Inr ((acc @ pageItems p) @ concat (map pageItems ps)),
              (sent @ [QueryCommand (deviceQuery dev tok)])
                @ map (\<lambda>t. QueryCommand (deviceQuery dev t))
                         (Some k # map LastEvaluatedKey (butlast ps)),
              s')" ..
    with Some snd r ne show ?thesis
      by (subst getAllItems_loop.simps) (simp add: pageItems_def Let_def split: option.splits)
  qed
qed

lemma servesPages_tokens:
  "servesPages send dev s tok ps \<Longrightarrow>
     ps \<noteq> [] \<and> LastEvaluatedKey (last ps) = None
     \<and> (\<forall>i. Suc i < length ps \<longrightarrow> LastEvaluatedKey (ps ! i) \<noteq> None)"
proof (induction ps arbitrary: s tok)
  case Nil
  then show ?case by simp
next
  case (Cons p ps)
  obtain r s1 where snd: "send s (QueryCommand (deviceQuery dev tok)) = (r, s1)"
    by (cases "send s (QueryCommand (deviceQuery dev tok))")
  with Cons.prems [unfolded servesPages_Cons] have r: "r = Inr p"
    by (cases r) auto
  show ?case
  proof (cases "LastEvaluatedKey p")
    case None
    with Cons.prems [unfolded servesPages_Cons] snd r show ?thesis by simp
  next
    case (Some k)
    with Cons.prems [unfolded servesPages_Cons] snd r have ne: "ps \<noteq> []" and sv: "servesPages send dev s1 (Some k) ps"
      by simp_all
    from Cons.IH [OF sv] have ih: "LastEvaluatedKey (last ps) = None"
      "\<forall>i. Suc i < length ps \<longrightarrow> LastEvaluatedKey (ps ! i) \<noteq> None" by simp_all
    have "\<forall>i. Suc i < length (p # ps) \<longrightarrow> LastEvaluatedKey ((p # ps) ! i) \<noteq> None"
    proof (intro allI impI)
      fix i assume "Suc i < length (p # ps)"
      then show "LastEvaluatedKey ((p # ps) ! i) \<noteq> None"
        using ih(2) Some by (cases i) simp_all
    qed
    with ne ih(1) show ?thesis by simp
  qed
qed

text \<open>
  C3. For every device and every store that serves a finite, non-empty sequence of pages
  to the device's query, every page but the last carrying a continuation token and the
  last none, \<open>getAllItemsForDevice\<close> returns, and returns exactly the concatenation of the
  pages' item lists in page order. It sends one query per page, each a query on the
  device index for that device: the first without \<^verbatim>\<open>ExclusiveStartKey\<close>, each later one
  with the token of the page before as its \<^verbatim>\<open>ExclusiveStartKey\<close>, and none after the page
  without a token. Pages of 2, 2 and 1 records give 5 records after 3 queries, whose
  \<^verbatim>\<open>ExclusiveStartKey\<close> are none, the first page's token and the second page's token.
\<close>

theorem getAllItemsForDevice_pages:
  assumes "servesPages send dev s None pages"
  shows "\<exists>sent s'.
           getAllItemsForDevice send s dev = Some (Inr (concat (map pageItems pages)), sent, s')
         \<and> length sent = length pages
         \<and> (\<forall>i<length pages. \<exists>q.
               sent ! i = QueryCommand q
             \<and> ExclusiveStartKey q = (if i = 0 then None else LastEvaluatedKey (pages ! (i - 1)))
             \<and> TableName q = ''attentv-ad-plays-prod''
             \<and> IndexName q = Some ''device-index''
             \<and> KeyConditionExpression q = ''#device = :device''
             \<and> FilterExpression q = None
             \<and> ExpressionAttributeNames q = [(''#device'', ''device_id'')]
             \<and> ExpressionAttributeValues q = [('':device'', dev)]
             \<and> Limit q = None)
         \<and> (\<forall>i. Suc i < length pages \<longrightarrow> LastEvaluatedKey (pages ! i) \<noteq> None)
         \<and> LastEvaluatedKey (last pages) = None"
proof -
  from getAllItems_loop_pages [OF assms, of "[]" "[]"] obtain s' where
    run: "getAllItemsForDevice send s dev
      = Some (Inr (concat (map pageItems pages)),
              map (\<lambda>t. QueryCommand (deviceQuery dev t)) (None # map LastEvaluatedKey (butlast pages)),
              s')"
    unfolding getAllItemsForDevice_def by auto
  from servesPages_tokens [OF assms] have ne: "pages \<noteq> []"
    and lastp: "LastEvaluatedKey (last pages) = None"
    and toks: "\<forall>i. Suc i < length pages \<longrightarrow> LastEvaluatedKey (pages ! i) \<noteq> None"
    by simp_all
  let ?toks = "None # map LastEvaluatedKey (butlast pages)"
  let ?sent = "map (\<lambda>t. QueryCommand (deviceQuery dev t)) ?toks"
  have len: "length ?sent = length pages" using ne by simp
  have tok_nth: "?toks ! i = (if i = 0 then None else LastEvaluatedKey (pages ! (i - 1)))"
    if "i < length pages" for i
  proof (cases i)
    case 0
    then show ?thesis by simp
  next
    case (Suc j)
    with that have j: "j < length (butlast pages)" by simp
    then have "butlast pages ! j = pages ! j" by (rule nth_butlast)
    with Suc j show ?thesis by simp
  qed
  have nth: "\<forall>i<length pages. \<exists>q.
               ?sent ! i = QueryCommand q
             \<and> ExclusiveStartKey q = (if i = 0 then None else LastEvaluatedKey (pages ! (i - 1)))
             \<and> TableName q = ''attentv-ad-plays-prod''
             \<and> IndexName q = Some ''device-index''
             \<and> KeyConditionExpression q = ''#device = :device''
             \<and> FilterExpression q = None
             \<and> ExpressionAttributeNames q = [(''#device'', ''device_id'')]
             \<and> ExpressionAttributeValues q = [('':device'', dev)]
             \<and> Limit q = None"
  proof (intro allI impI)
    fix i assume i: "i < length pages"
    then have "i < length ?toks" using ne by simp
    then have "?sent ! i = QueryCommand (deviceQuery dev (?toks ! i))" by (rule nth_map)
    then have "?sent ! i = QueryCommand (deviceQuery dev
        (if i = 0 then None else LastEvaluatedKey (pages ! (i - 1))))"
      by (simp only: tok_nth [OF i])
    then show "\<exists>q.
               ?sent ! i = QueryCommand q
             \<and> ExclusiveStartKey q = (if i = 0 then None else LastEvaluatedKey (pages ! (i - 1)))
             \<and> TableName q = ''attentv-ad-plays-prod''
             \<and> IndexName q = Some ''device-index''
             \<and> KeyConditionExpression q = ''#device = :device''
             \<and> FilterExpression q = None
             \<and> ExpressionAttributeNames q = [(''#device'', ''device_id'')]
             \<and> ExpressionAttributeValues q = [('':device'', dev)]
             \<and> Limit q = None"
      by (simp add: deviceQuery_def)
  qed
  from run len nth toks lastp show ?thesis by blast
qed

theorem getAllItemsForDevice_pages_witness:
  "servesPages token_send ''tv-a'' () None three_pages
   \<and> getAllItemsForDevice token_send () ''tv-a''
       = Some (Inr [1, 2, 3, 4, 5],
               [QueryCommand (tv_a_query None), QueryCommand (tv_a_query (Some 2)),
                QueryCommand (tv_a_query (Some 4))],
               ())
   \<and> servesPages stub_send ''tv-a'' three_pages None three_pages
   \<and> getAllItemsForDevice stub_send three_pages ''tv-a''
       = Some (Inr [1, 2, 3, 4, 5],
               [QueryCommand (tv_a_query None), QueryCommand (tv_a_query (Some 2)),
                QueryCommand (tv_a_query (Some 4))],
               [])"
proof -
  have h: "servesPages token_send ''tv-a'' () None three_pages"
    by (simp add: three_pages_def token_send_def)
  have h': "servesPages stub_send ''tv-a'' three_pages None three_pages"
    by (simp add: three_pages_def stub_send_def)
  show ?thesis
    using h h' getAllItemsForDevice_pages [OF h] getAllItemsForDevice_pages [OF h']
    by (simp add: getAllItemsForDevice_def getAllItems_loop.simps token_send_def stub_send_def
        three_pages_def deviceQuery_def tv_a_query_def)
qed

section \<open>Properties of the per-ad routes\<close>

subsection \<open>Joining, and stores that agree on an ad's queries\<close>









subsection \<open>The comparator sort and the set of ads\<close>

lemma insert_by_set: "set (insert_by cmp x ys) = insert x (set ys)"
  by (induction ys) auto

lemma insert_by_count: "count_list (insert_by cmp x ys) e = count_list (x # ys) e"
  by (induction ys) auto

lemma Array_sort_count: "count_list (Array_sort cmp xs) e = count_list xs e"
  unfolding Array_sort_def by (induction xs) (simp_all add: insert_by_count)

lemma Array_sort_set: "set (Array_sort cmp xs) = set xs"
  unfolding Array_sort_def by (induction xs) (simp_all add: insert_by_set)

lemma Array_sort_length: "length (Array_sort cmp xs) = length xs"
proof -
  have "length (insert_by cmp x ys) = Suc (length ys)" for x ys
    by (induction ys) simp_all
  then show ?thesis unfolding Array_sort_def by (induction xs) simp_all
qed

lemma insert_by_sorted:
  fixes key :: "'a \<Rightarrow> real"
  assumes "\<forall>y\<in>set ys. (cmp x y \<le> 0 \<longleftrightarrow> key y \<le> key x)"
    and "sorted_wrt (\<lambda>a b. key b \<le> key a) ys"
  shows "sorted_wrt (\<lambda>a b. key b \<le> key a) (insert_by cmp x ys)"
  using assms
proof (induction ys)
  case Nil
  then show ?case by simp
next
  case (Cons y ys)
  show ?case
  proof (cases "cmp x y \<le> 0")
    case True
    with Cons.prems have "key y \<le> key x" by simp
    moreover from Cons.prems(2) have "\<forall>z\<in>set ys. key z \<le> key y" by simp
    ultimately have "\<forall>z\<in>set (y # ys). key z \<le> key x" by auto
    with True Cons.prems(2) show ?thesis by simp
  next
    case False
    with Cons.prems have "key x \<le> key y" by auto
    moreover from Cons.prems(2) have "\<forall>z\<in>set ys. key z \<le> key y" by simp
    ultimately have "\<forall>z\<in>set (insert_by cmp x ys). key z \<le> key y"
      by (simp add: insert_by_set)
    moreover have "sorted_wrt (\<lambda>a b. key b \<le> key a) (insert_by cmp x ys)"
      using Cons.prems by (intro Cons.IH) simp_all
    ultimately show ?thesis using False by simp
  qed
qed

lemma Array_sort_sorted:
  fixes key :: "'a \<Rightarrow> real"
  assumes "\<forall>a\<in>set xs. \<forall>b\<in>set xs. (cmp a b \<le> 0 \<longleftrightarrow> key b \<le> key a)"
  shows "sorted_wrt (\<lambda>a b. key b \<le> key a) (Array_sort cmp xs)"
  using assms
proof (induction xs)
  case Nil
  then show ?case by (simp add: Array_sort_def)
next
  case (Cons x xs)
  have ih: "sorted_wrt (\<lambda>a b. key b \<le> key a) (Array_sort cmp xs)"
    using Cons.prems by (intro Cons.IH) simp
  have "Array_sort cmp (x # xs) = insert_by cmp x (Array_sort cmp xs)"
    by (simp add: Array_sort_def)
  moreover have "sorted_wrt (\<lambda>a b. key b \<le> key a) (insert_by cmp x (Array_sort cmp xs))"
    using Cons.prems ih by (intro insert_by_sorted) (simp_all add: Array_sort_set)
  ultimately show ?case by simp
qed

lemma Array_slice0_sorted:
  "sorted_wrt R xs \<Longrightarrow> sorted_wrt R (Array_slice0 e xs)"
  by (simp add: Array_slice0_def sorted_wrt_take)

lemma foldl_Set_add_distinct: "distinct s \<Longrightarrow> distinct (foldl Set_add s xs)"
  by (induction xs arbitrary: s) (simp_all add: Set_add_def)

lemma collectAds_distinct:
  "collectAds s3 devs acc = Inr allAds \<Longrightarrow> distinct acc \<Longrightarrow> distinct allAds"
proof (induction devs arbitrary: acc)
  case Nil
  then show ?case by simp
next
  case (Cons dev devs)
  then show ?case
    by (auto split: sum.splits intro: foldl_Set_add_distinct)
qed

lemma Promise_all_length: "Promise_all ps = Some ys \<Longrightarrow> length ys = length ps"
  by (induction ps arbitrary: ys) (auto split: option.splits)

lemma Promise_all_nth:
  "Promise_all (map f xs) = Some ys \<Longrightarrow> \<forall>i<length xs. f (xs ! i) = Some (ys ! i)"
proof (induction xs arbitrary: ys)
  case Nil
  then show ?case by simp
next
  case (Cons x xs)
  from Cons.prems obtain y ys' where y: "f x = Some y"
    and ys': "Promise_all (map f xs) = Some ys'" and ys: "ys = y # ys'"
    by (auto split: option.splits)
  from Cons.IH [OF ys'] have ih: "\<forall>i<length xs. f (xs ! i) = Some (ys' ! i)" .
  show ?case
  proof (intro allI impI)
    fix i assume "i < length (x # xs)"
    then show "f ((x # xs) ! i) = Some (ys ! i)"
      using y ys ih by (cases i) simp_all
  qed
qed

lemma getLeaderboard_success:
  assumes "getLeaderboard s3 send lp sp = Some (200, Inr r)"
  shows "\<exists>allAds stats. collectAds s3 (getAllDevices s3) [] = Inr allAds \<and> distinct allAds
           \<and> Promise_all (map (leaderboardStat send (getAllDevices s3)) allAds) = Some stats
           \<and> length stats = length allAds
           \<and> (\<forall>i<length allAds.
                 leaderboardStat send (getAllDevices s3) (allAds ! i) = Some (stats ! i))
           \<and> r = leaderboardResponseOf (limitOf lp) (sortByOf sp) stats"
proof -
  from assms obtain allAds where a: "collectAds s3 (getAllDevices s3) [] = Inr allAds"
    by (auto simp: getLeaderboard_def Let_def res_error_500_def split: sum.splits)
  with assms obtain stats where
    s: "Promise_all (map (leaderboardStat send (getAllDevices s3)) allAds) = Some stats"
    and r: "r = leaderboardResponseOf (limitOf lp) (sortByOf sp) stats"
    by (auto simp: getLeaderboard_def Let_def res_json_def split: option.splits)
  from a have "distinct allAds" by (rule collectAds_distinct) simp
  moreover from s have "length stats = length allAds" by (auto dest: Promise_all_length)
  moreover from s have "\<forall>i<length allAds.
      leaderboardStat send (getAllDevices s3) (allAds ! i) = Some (stats ! i)"
    by (rule Promise_all_nth)
  ultimately show ?thesis using a s r by blast
qed





subsection \<open>A failed sub-aggregation\<close>


text \<open>The unfolding rules that evaluate the routes on the example stores.\<close>

lemmas example_defs = s3_example_def send_table_def send_flaky_def plays_example_def S3_BUCKET_def

lemmas listing_defs = getAllDevices_def deviceNames_def adNames_def adNames_unsorted_def
  Array_sort_default_def endsWith_def suffix_def Set_add_def

lemmas entry_defs = leaderboardEntryOf_def sumDuration_def duration_or_0_def sortByTime_def
  Array_sort_def getTime_or_0_def lastPlayedOf_def frequencyOf_def Date_getTime_def round2_def
  adStatsOf_def
  failedAdStat_def failedLeaderboardEntry_def

lemmas route_defs = getLeaderboard_def getDeviceAdStats_def leaderboardStat_def deviceAdStat_def
  leaderboard_loop.simps deviceAd_loop.simps adQuery_def Let_def leaderboardResponseOf_def
  limitOf_def sortByOf_def leaderboardCompare_def Array_slice0_def res_json_def


subsection \<open>The order of the leaderboard\<close>

text \<open>
  The frequency of an entry is a number unless a record of the ad has a missing or empty
  timestamp.
\<close>

lemma frequencyOf_number:
  assumes "\<forall>it\<in>set its. timestamp it \<noteq> NoTimestamp"
  shows "frequencyOf its \<noteq> None"
proof (cases its)
  case Nil
  then show ?thesis by (simp add: frequencyOf_def)
next
  case (Cons x xs)
  have number: "ts \<noteq> NoTimestamp \<Longrightarrow> Date_getTime ts \<noteq> None" for ts
    by (cases ts) (simp_all add: Date_getTime_def)
  from Cons assms have "timestamp x \<noteq> NoTimestamp" by simp
  then have "Date_getTime (timestamp x) \<noteq> None" by (rule number)
  moreover have "last its \<in> set its" using Cons by simp
  with assms have "timestamp (last its) \<noteq> NoTimestamp" by blast
  then have "Date_getTime (timestamp (last its)) \<noteq> None" by (rule number)
  ultimately obtain f l where "Date_getTime (timestamp x) = Some f"
    "Date_getTime (timestamp (last its)) = Some l"
    by blast
  with Cons show ?thesis by (simp add: frequencyOf_def Let_def)
qed

lemma leaderboardEntryOf_frequency_number:
  assumes "\<forall>it\<in>set (fst acc). timestamp it \<noteq> NoTimestamp"
  shows "frequency (leaderboardEntryOf ad acc) \<noteq> None"
proof -
  have "frequencyOf (sortByTime (fst acc)) \<noteq> None"
    using assms by (intro frequencyOf_number) (simp add: sortByTime_def Array_sort_set)
  then show ?thesis
    by (auto simp: leaderboardEntryOf_def Let_def round2_def)
qed

text \<open>
  A record whose timestamp is \<^verbatim>\<open>null\<close> counts as a play at the epoch: with a second play
  twelve hours later the two plays span less than a day, and the frequency is 2.
\<close>

lemma frequencyOf_null_timestamp:
  "frequency (leaderboardEntryOf ''n.mp4''
     ([\<lparr>play_id = Some ''p4'', ad_filename = Some ''n.mp4'', timestamp = Instant 43200000,
        play_duration = Some 5\<rparr>,
       \<lparr>play_id = Some ''p5'', ad_filename = Some ''n.mp4'', timestamp = NullTimestamp,
        play_duration = Some 5\<rparr>], [''tv-a''])) = Some 2"
  by (simp add: leaderboardEntryOf_def Let_def sortByTime_def Array_sort_def getTime_or_0_def
      frequencyOf_def Date_getTime_def round2_def)

lemma failedLeaderboardEntry_frequency: "frequency (failedLeaderboardEntry ad e) = Some 0"
  by (simp add: failedLeaderboardEntry_def)

text \<open>
  C6, as the route has it. The entries of the leaderboard response are in descending order
  of the field that \<open>sortBy\<close> selects: \<open>totalDuration\<close> for \<open>duration\<close>, the computed
  \<open>frequency\<close> for \<open>frequency\<close> provided every frequency is a number, and \<open>totalPlays\<close> for
  \<open>plays\<close> and for every other value, a missing or empty \<open>sortBy\<close> counting as \<open>plays\<close>. The
  sorted list is a rearrangement of the entries, one per ad, and the response holds
  \<^verbatim>\<open>slice(0, limit)\<close> of it, where \<open>limit\<close> is the parsed query value, or 20 when that is
  missing, unparsable or 0: the first \<open>limit\<close> entries when \<open>limit\<close> is not negative, and all
  but the last \<open>-limit\<close> entries when it is negative. \<open>total\<close> is the number of entries
  before truncation, which in a successful response of the route is the number of
  distinct ads. Three ads with \<open>totalPlays\<close> 10, 30 and 20 come out in the order 30, 20, 10
  when \<open>limit\<close> is at least 3.
\<close>

theorem leaderboard_sorted_truncated:
  "(sortBy \<noteq> ''duration'' \<and> sortBy \<noteq> ''frequency'' \<longrightarrow>
      sorted_wrt (\<lambda>a b. totalPlays b \<le> totalPlays a) (ads (leaderboardResponseOf lmt sortBy stats)))
   \<and> (sortBy = ''duration'' \<longrightarrow>
      sorted_wrt (\<lambda>a b. totalDuration b \<le> totalDuration a) (ads (leaderboardResponseOf lmt sortBy stats)))
   \<and> (sortBy = ''frequency'' \<and> (\<forall>e\<in>set stats. frequency e \<noteq> None) \<longrightarrow>
      sorted_wrt (\<lambda>a b. the (frequency b) \<le> the (frequency a))
        (ads (leaderboardResponseOf lmt sortBy stats)))
   \<and> (\<forall>e. count_list (Array_sort (leaderboardCompare sortBy) stats) e = count_list stats e)
   \<and> (0 \<le> lmt \<longrightarrow>
        ads (leaderboardResponseOf lmt sortBy stats)
          = take (nat lmt) (Array_sort (leaderboardCompare sortBy) stats))
   \<and> (lmt < 0 \<longrightarrow>
        ads (leaderboardResponseOf lmt sortBy stats)
          = take (length stats - nat (- lmt)) (Array_sort (leaderboardCompare sortBy) stats))
   \<and> leaderboardResponse.total (leaderboardResponseOf lmt sortBy stats) = int (length stats)
   \<and> sortByOf None = ''plays'' \<and> sortByOf (Some []) = ''plays''
   \<and> (sb \<noteq> [] \<longrightarrow> sortByOf (Some sb) = sb)
   \<and> limitOf None = 20 \<and> limitOf (Some 0) = 20
   \<and> (n \<noteq> 0 \<longrightarrow> limitOf (Some n) = n)
   \<and> (getLeaderboard s3 send lp sp = Some (200, Inr r) \<longrightarrow>
        (\<exists>allAds entries. collectAds s3 (getAllDevices s3) [] = Inr allAds \<and> distinct allAds
           \<and> length entries = length allAds
           \<and> (\<forall>i<length allAds.
                 leaderboardStat send (getAllDevices s3) (allAds ! i) = Some (entries ! i))
           \<and> r = leaderboardResponseOf (limitOf lp) (sortByOf sp) entries
           \<and> leaderboardResponse.total r = int (length allAds)))
   \<and> (totalPlays a = 10 \<and> totalPlays b = 30 \<and> totalPlays c = 20 \<and> 3 \<le> lmt \<longrightarrow>
        ads (leaderboardResponseOf lmt ''plays'' [a, b, c]) = [b, c, a])"
proof -
  let ?sorted = "Array_sort (leaderboardCompare sortBy) stats"
  have ads_eq: "ads (leaderboardResponseOf lmt sortBy stats) = Array_slice0 lmt ?sorted"
    by (simp add: leaderboardResponseOf_def Let_def)
  have p: "sortBy \<noteq> ''duration'' \<and> sortBy \<noteq> ''frequency'' \<longrightarrow>
      sorted_wrt (\<lambda>a b. totalPlays b \<le> totalPlays a) (ads (leaderboardResponseOf lmt sortBy stats))"
  proof
    assume sb: "sortBy \<noteq> ''duration'' \<and> sortBy \<noteq> ''frequency''"
    have "sorted_wrt (\<lambda>a b. real_of_int (totalPlays b) \<le> real_of_int (totalPlays a)) ?sorted"
      by (rule Array_sort_sorted) (simp add: leaderboardCompare_def sb)
    then have "sorted_wrt (\<lambda>a b. totalPlays b \<le> totalPlays a) ?sorted" by simp
    then show "sorted_wrt (\<lambda>a b. totalPlays b \<le> totalPlays a)
        (ads (leaderboardResponseOf lmt sortBy stats))"
      unfolding ads_eq by (rule Array_slice0_sorted)
  qed
  have d: "sortBy = ''duration'' \<longrightarrow>
      sorted_wrt (\<lambda>a b. totalDuration b \<le> totalDuration a) (ads (leaderboardResponseOf lmt sortBy stats))"
  proof
    assume sb: "sortBy = ''duration''"
    have "sorted_wrt (\<lambda>a b. totalDuration b \<le> totalDuration a) ?sorted"
      by (rule Array_sort_sorted) (simp add: leaderboardCompare_def sb)
    then show "sorted_wrt (\<lambda>a b. totalDuration b \<le> totalDuration a)
        (ads (leaderboardResponseOf lmt sortBy stats))"
      unfolding ads_eq by (rule Array_slice0_sorted)
  qed
  have f: "sortBy = ''frequency'' \<and> (\<forall>e\<in>set stats. frequency e \<noteq> None) \<longrightarrow>
      sorted_wrt (\<lambda>a b. the (frequency b) \<le> the (frequency a))
        (ads (leaderboardResponseOf lmt sortBy stats))"
  proof
    assume sb: "sortBy = ''frequency'' \<and> (\<forall>e\<in>set stats. frequency e \<noteq> None)"
    have "sorted_wrt (\<lambda>a b. the (frequency b) \<le> the (frequency a)) ?sorted"
    proof (rule Array_sort_sorted, intro ballI)
      fix x y
      assume "x \<in> set stats" "y \<in> set stats"
      with sb have "frequency x \<noteq> None" "frequency y \<noteq> None" by blast+
      then obtain fx fy where "frequency x = Some fx" "frequency y = Some fy" by blast
      with sb show "leaderboardCompare sortBy x y \<le> 0
          \<longleftrightarrow> the (frequency y) \<le> the (frequency x)"
        by (simp add: leaderboardCompare_def)
    qed
    then show "sorted_wrt (\<lambda>a b. the (frequency b) \<le> the (frequency a))
        (ads (leaderboardResponseOf lmt sortBy stats))"
      unfolding ads_eq by (rule Array_slice0_sorted)
  qed
  have perm: "\<forall>e. count_list ?sorted e = count_list stats e"
    by (simp add: Array_sort_count)
  have tk: "0 \<le> lmt \<longrightarrow> ads (leaderboardResponseOf lmt sortBy stats) = take (nat lmt) ?sorted"
    by (simp add: ads_eq Array_slice0_def)
  have tk_neg: "lmt < 0 \<longrightarrow>
        ads (leaderboardResponseOf lmt sortBy stats) = take (length stats - nat (- lmt)) ?sorted"
  proof
    assume neg: "lmt < 0"
    then have "nat (int (length ?sorted) + lmt) = length stats - nat (- lmt)"
      by (simp add: Array_sort_length)
    with neg show "ads (leaderboardResponseOf lmt sortBy stats)
        = take (length stats - nat (- lmt)) ?sorted"
      by (simp add: ads_eq Array_slice0_def)
  qed
  have tot: "leaderboardResponse.total (leaderboardResponseOf lmt sortBy stats) = int (length stats)"
    by (simp add: leaderboardResponseOf_def Let_def Array_sort_length)
  have dflt: "sortByOf None = ''plays''" "sortByOf (Some []) = ''plays''"
    "sb \<noteq> [] \<longrightarrow> sortByOf (Some sb) = sb"
    by (simp_all add: sortByOf_def)
  have lim: "limitOf None = 20" "limitOf (Some 0) = 20" "n \<noteq> 0 \<longrightarrow> limitOf (Some n) = n"
    by (simp_all add: limitOf_def)
  have route: "getLeaderboard s3 send lp sp = Some (200, Inr r) \<longrightarrow>
        (\<exists>allAds entries. collectAds s3 (getAllDevices s3) [] = Inr allAds \<and> distinct allAds
           \<and> length entries = length allAds
           \<and> (\<forall>i<length allAds.
                 leaderboardStat send (getAllDevices s3) (allAds ! i) = Some (entries ! i))
           \<and> r = leaderboardResponseOf (limitOf lp) (sortByOf sp) entries
           \<and> leaderboardResponse.total r = int (length allAds))"
  proof
    assume "getLeaderboard s3 send lp sp = Some (200, Inr r)"
    from getLeaderboard_success [OF this] obtain allAds entries where
      h: "collectAds s3 (getAllDevices s3) [] = Inr allAds" "distinct allAds"
        "length entries = length allAds"
        "r = leaderboardResponseOf (limitOf lp) (sortByOf sp) entries"
        "\<forall>i<length allAds.
           leaderboardStat send (getAllDevices s3) (allAds ! i) = Some (entries ! i)"
      by blast
    have "leaderboardResponse.total r = int (length allAds)"
      by (simp add: h(3,4) leaderboardResponseOf_def Let_def Array_sort_length)
    with h show "\<exists>allAds entries. collectAds s3 (getAllDevices s3) [] = Inr allAds \<and> distinct allAds
           \<and> length entries = length allAds
           \<and> (\<forall>i<length allAds.
                 leaderboardStat send (getAllDevices s3) (allAds ! i) = Some (entries ! i))
           \<and> r = leaderboardResponseOf (limitOf lp) (sortByOf sp) entries
           \<and> leaderboardResponse.total r = int (length allAds)"
      by blast
  qed
  have ex: "totalPlays a = 10 \<and> totalPlays b = 30 \<and> totalPlays c = 20 \<and> 3 \<le> lmt \<longrightarrow>
        ads (leaderboardResponseOf lmt ''plays'' [a, b, c]) = [b, c, a]"
  proof
    assume h: "totalPlays a = 10 \<and> totalPlays b = 30 \<and> totalPlays c = 20 \<and> 3 \<le> lmt"
    then have "3 \<le> nat lmt" by linarith
    then have "length [b, c, a] \<le> nat lmt" by simp
    then have "take (nat lmt) [b, c, a] = [b, c, a]" by (rule take_all)
    moreover from h have "\<not> lmt < 0" by simp
    ultimately have "\<not> lmt < 0" and "take (nat lmt) [b, c, a] = [b, c, a]" by blast+
    with h show "ads (leaderboardResponseOf lmt ''plays'' [a, b, c]) = [b, c, a]"
      by (simp add: leaderboardResponseOf_def Let_def Array_sort_def leaderboardCompare_def
          Array_slice0_def)
  qed
  from p d f perm tk tk_neg tot dflt lim route ex show ?thesis by (intro conjI)
qed

theorem leaderboard_sorted_truncated_witness:
  "ads (leaderboardResponseOf (limitOf None) (sortByOf (Some ''plays'')) entries_example)
     = [entry_example ''y.mp4'' 30 90 (15 / 2), entry_example ''z.mp4'' 20 600 2,
        entry_example ''x.mp4'' 10 300 5]
   \<and> ads (leaderboardResponseOf (limitOf (Some 2)) (sortByOf (Some ''duration'')) entries_example)
     = [entry_example ''z.mp4'' 20 600 2, entry_example ''x.mp4'' 10 300 5]
   \<and> ads (leaderboardResponseOf (limitOf (Some 2)) (sortByOf (Some ''frequency'')) entries_example)
     = [entry_example ''y.mp4'' 30 90 (15 / 2), entry_example ''x.mp4'' 10 300 5]
   \<and> ads (leaderboardResponseOf (limitOf (Some (- 1))) (sortByOf None) entries_example)
     = [entry_example ''y.mp4'' 30 90 (15 / 2), entry_example ''z.mp4'' 20 600 2]
   \<and> leaderboardResponse.total
         (leaderboardResponseOf (limitOf (Some 2)) (sortByOf (Some ''frequency'')) entries_example) = 3
   \<and> (\<exists>r. getLeaderboard s3_example send_table (Some 1) (Some ''duration'') = Some (200, Inr r)
          \<and> leaderboardResponse.total r = 2 \<and> map adFilename (ads r) = [''b.mp4''])"
  using leaderboard_sorted_truncated [where sortBy = "''plays''" and lmt = 20
          and stats = entries_example and sb = "''duration''" and n = 1
          and ?s3.0 = s3_example and send = send_table
          and lp = "Some 1" and sp = "Some ''duration''"
          and r = "\<lparr>ads = [\<lparr>adFilename = ''b.mp4'', totalPlays = 2, totalDuration = 12,
                     averageDuration = 6, lastPlayed = Some 259200000, error = None,
                     frequency = Some 1, deviceCount = 2\<rparr>], total = 2\<rparr>"
          and a = "entry_example ''x.mp4'' 10 300 5"
          and b = "entry_example ''y.mp4'' 30 90 (15 / 2)"
          and c = "entry_example ''z.mp4'' 20 600 2"]
        leaderboard_sorted_truncated [where sortBy = "''duration''" and lmt = 2
          and stats = entries_example and sb = "''frequency''" and n = 2]
        leaderboard_sorted_truncated [where sortBy = "''frequency''" and lmt = 2
          and stats = entries_example and sb = "''plays''" and n = "- 1"]
        leaderboard_sorted_truncated [where sortBy = "''plays''" and lmt = "- 1"
          and stats = entries_example]
  by (simp add: entries_example_def entry_example_def example_defs listing_defs entry_defs
      route_defs)

text \<open>
  The claim as written has the response hold the first \<open>limit\<close> entries for every request,
  and the entries in descending order of the frequency for every set of ads. With
  \<^verbatim>\<open>limit=-1\<close> the response holds two of three entries, and one of two on the example
  store. A record without timestamp gives its ad the frequency \<^verbatim>\<open>NaN\<close>, and an entry with
  that frequency between the frequencies 1 and 2 leaves the three in that order.
\<close>

theorem leaderboard_limit_frequency_counterexample:
  "map adFilename (ads (leaderboardResponseOf (limitOf (Some (- 1))) (sortByOf (Some ''plays''))
                        entries_example))
     = [''y.mp4'', ''z.mp4'']
   \<and> getLeaderboard s3_example send_table (Some (- 1)) None
     = Some (200, Inr \<lparr>ads =
          [\<lparr>adFilename = ''b.mp4'', totalPlays = 2, totalDuration = 12,
              averageDuration = 6, lastPlayed = Some 259200000,
              error = None, frequency = Some 1, deviceCount = 2\<rparr>],
          total = 2\<rparr>)
   \<and> frequency (leaderboardEntryOf ''n.mp4''
        ([\<lparr>play_id = Some ''p3'', ad_filename = Some ''n.mp4'', timestamp = NoTimestamp,
           play_duration = Some 5\<rparr>], [''tv-a''])) = None
   \<and> map frequency (ads (leaderboardResponseOf 20 ''frequency'' entries_nan_example))
     = [Some 1, None, Some 2]"
  by (simp add: entries_example_def entries_nan_example_def entry_example_def example_defs
      listing_defs entry_defs route_defs)

subsection \<open>The device count of the leaderboard\<close>

lemma Set_add_idem: "Set_add (Set_add s x) x = Set_add s x"
  by (simp add: Set_add_def)

lemma leaderboard_loop_deviceSet:
  assumes "leaderboard_loop send ad dev acc key = Some (Inr acc')"
    and "\<forall>k r. send (QueryCommand (adQuery dev ad k)) = Inr r \<longrightarrow> Items r \<noteq> None"
  shows "snd acc' = Set_add (snd acc) dev"
proof -
  have "send = send \<and> ad = ad \<and> dev = dev \<longrightarrow>
          (\<forall>acc''. (Inr acc' :: error + item list \<times> string list) = Inr acc''
             \<longrightarrow> snd acc'' = Set_add (snd acc) dev)"
  proof (rule leaderboard_loop.raw_induct
      [where P = "\<lambda>s a d acc key y. s = send \<and> a = ad \<and> d = dev \<longrightarrow>
                     (\<forall>acc''. y = Inr acc'' \<longrightarrow> snd acc'' = Set_add (snd acc) dev)",
        OF _ assms(1)])
    fix loop s a d acc key y
    assume IH: "\<And>s a d acc key y. loop s a d acc key = Some y \<Longrightarrow>
             s = send \<and> a = ad \<and> d = dev \<longrightarrow>
               (\<forall>acc''. y = Inr acc'' \<longrightarrow> snd acc'' = Set_add (snd acc) dev)"
      and step: "(case s (QueryCommand (adQuery d a key)) of
              Inl e \<Rightarrow> Some (Inl e)
            | Inr response \<Rightarrow>
                let acc' = case Items response of None \<Rightarrow> acc
                           | Some xs \<Rightarrow> (fst acc @ xs, Set_add (snd acc) d)
                in case LastEvaluatedKey response of None \<Rightarrow> Some (Inr acc')
                   | Some k \<Rightarrow> loop s a d acc' (Some k)) = Some y"
    show "s = send \<and> a = ad \<and> d = dev \<longrightarrow>
            (\<forall>acc''. y = Inr acc'' \<longrightarrow> snd acc'' = Set_add (snd acc) dev)"
    proof (intro impI allI)
      fix acc''
      assume eq: "s = send \<and> a = ad \<and> d = dev" and y: "y = Inr acc''"
      obtain response where r: "send (QueryCommand (adQuery dev ad key)) = Inr response"
        using step eq y by (cases "send (QueryCommand (adQuery dev ad key))") simp_all
      with assms(2) obtain xs where xs: "Items response = Some xs" by blast
      show "snd acc'' = Set_add (snd acc) dev"
      proof (cases "LastEvaluatedKey response")
        case None
        with step eq r xs y show ?thesis by (auto simp: Let_def)
      next
        case (Some k)
        with step eq r xs
        have "loop send ad dev (fst acc @ xs, Set_add (snd acc) dev) (Some k) = Some y"
          by (simp add: Let_def)
        from IH [OF this] y have "snd acc'' = Set_add (Set_add (snd acc) dev) dev" by simp
        then show ?thesis by (simp add: Set_add_idem)
      qed
    qed
  qed
  then show ?thesis by simp
qed


lemma leaderboard_devices_deviceSet:
  assumes "leaderboard_devices send ad devs acc = Some (Inr acc')"
    and "\<forall>d\<in>set devs. \<forall>k r. send (QueryCommand (adQuery d ad k)) = Inr r \<longrightarrow> Items r \<noteq> None"
  shows "snd acc' = foldl Set_add (snd acc) devs"
  using assms
proof (induction devs arbitrary: acc)
  case Nil
  then show ?case by simp
next
  case (Cons dev devs)
  from Cons.prems(1) obtain acc1 where
    l: "leaderboard_loop send ad dev acc None = Some (Inr acc1)"
    and d: "leaderboard_devices send ad devs acc1 = Some (Inr acc')"
    by (auto split: option.splits sum.splits)
  have "\<forall>k r. send (QueryCommand (adQuery dev ad k)) = Inr r \<longrightarrow> Items r \<noteq> None"
    using Cons.prems(2) by simp
  with l have "snd acc1 = Set_add (snd acc) dev"
    by (rule leaderboard_loop_deviceSet)
  moreover have "\<forall>d\<in>set devs. \<forall>k r. send (QueryCommand (adQuery d ad k)) = Inr r
      \<longrightarrow> Items r \<noteq> None"
    using Cons.prems(2) by simp
  with d have "snd acc' = foldl Set_add (snd acc1) devs"
    by (rule Cons.IH)
  ultimately show ?case by simp
qed

lemma foldl_Set_add_set: "set (foldl Set_add s xs) = set s \<union> set xs"
  by (induction xs arbitrary: s) (auto simp: Set_add_def)

lemma foldl_Set_add_length: "length (foldl Set_add [] xs) = card (set xs)"
proof -
  have "distinct (foldl Set_add [] xs)" by (rule foldl_Set_add_distinct) simp
  then have "length (foldl Set_add [] xs) = card (set (foldl Set_add [] xs))"
    by (simp add: distinct_card)
  then show ?thesis by (simp add: foldl_Set_add_set)
qed

text \<open>
  C5. The claim asks for \<open>deviceCount\<close> to be the number of distinct devices with at least
  one play record for the ad. What the route computes: a device enters \<^verbatim>\<open>deviceSet\<close> as
  soon as one of its pages has an \<^verbatim>\<open>Items\<close> array, and an empty array counts. So when the
  store answers every query of the ad with an \<^verbatim>\<open>Items\<close> array, as a query of the table
  does, \<open>deviceCount\<close> is the number of distinct devices queried, whatever their records.
  On the example store, where \<open>tv-b\<close> never played anything and nobody played \<open>z.mp4\<close>,
  both ads get \<open>deviceCount = 2\<close>.
\<close>

theorem leaderboard_deviceCount_queried_devices:
  assumes "leaderboard_devices send ad devs ([], []) = Some (Inr acc)"
    and "\<forall>d\<in>set devs. \<forall>k r. send (QueryCommand (adQuery d ad k)) = Inr r \<longrightarrow> Items r \<noteq> None"
  shows "leaderboardStat send devs ad = Some (leaderboardEntryOf ad acc)
       \<and> deviceCount (leaderboardEntryOf ad acc) = int (card (set devs))
       \<and> totalPlays (leaderboardEntryOf ad acc) = int (length (fst acc))"
proof -
  from leaderboard_devices_deviceSet [OF assms] have "snd acc = foldl Set_add [] devs" by simp
  then have "deviceCount (leaderboardEntryOf ad acc) = int (card (set devs))"
    by (simp add: leaderboardEntryOf_def Let_def foldl_Set_add_length)
  moreover have "leaderboardStat send devs ad = Some (leaderboardEntryOf ad acc)"
    using assms(1) by (simp add: leaderboardStat_def)
  moreover have "totalPlays (leaderboardEntryOf ad acc) = int (length (fst acc))"
    by (simp add: leaderboardEntryOf_def Let_def)
  ultimately show ?thesis by simp
qed

theorem leaderboard_deviceCount_queried_devices_witness:
  "leaderboard_devices send_table ''z.mp4'' [''tv-a'', ''tv-b''] ([], [])
     = Some (Inr ([], [''tv-a'', ''tv-b'']))
   \<and> leaderboardStat send_table [''tv-a'', ''tv-b''] ''z.mp4''
     = Some \<lparr>adFilename = ''z.mp4'', totalPlays = 0, totalDuration = 0, averageDuration = 0,
             lastPlayed = None, error = None, frequency = Some 0, deviceCount = 2\<rparr>
   \<and> getLeaderboard s3_example send_table None None
     = Some (200, Inr \<lparr>ads =
          [\<lparr>adFilename = ''b.mp4'', totalPlays = 2, totalDuration = 12,
              averageDuration = 6, lastPlayed = Some 259200000,
              error = None, frequency = Some 1, deviceCount = 2\<rparr>,
           \<lparr>adFilename = ''z.mp4'', totalPlays = 0, totalDuration = 0,
              averageDuration = 0, lastPlayed = None, error = None,
              frequency = Some 0, deviceCount = 2\<rparr>],
          total = 2\<rparr>)"
  using leaderboard_deviceCount_queried_devices
          [of send_table "''z.mp4''" "[''tv-a'', ''tv-b'']" "([], [''tv-a'', ''tv-b''])"]
  by (simp add: example_defs listing_defs entry_defs route_defs)

end
